theory Spec2Isabelle
  imports Complex_Main
begin

section \<open>Drift removal: linear fit and attenuated-drift forecast\<close>

text \<open>
  A shallow embedding of \<^verbatim>\<open>remove_drift.py\<close>: \<^verbatim>\<open>get_lr_params\<close>,
  \<^verbatim>\<open>get_all_lr_params\<close>, \<^verbatim>\<open>make_single_predictions\<close> and
  \<^verbatim>\<open>get_decayed_drift_preds\<close>.

  Numbers. The source computes in 64-bit floating point. Here a float is either
  \<open>NaN\<close> or \<open>Num x\<close> with \<open>x\<close> a real number: rounding, overflow and the
  infinities are not modelled, the propagation of NaN through arithmetic is.
  The source fills its fresh arrays with NaN before it writes them, so NaN is a value
  the model needs.
\<close>

datatype py_error = ValueError | IndexError | KeyError

datatype fl = NaN | Num real

fun fl_add :: "fl \<Rightarrow> fl \<Rightarrow> fl" where
  "fl_add (Num x) (Num y) = Num (x + y)"
| "fl_add _ _ = NaN"

fun fl_mul :: "fl \<Rightarrow> fl \<Rightarrow> fl" where
  "fl_mul (Num x) (Num y) = Num (x * y)"
| "fl_mul _ _ = NaN"

fun fl_neg :: "fl \<Rightarrow> fl" where
  "fl_neg (Num x) = Num (- x)"
| "fl_neg NaN = NaN"

fun fl_exp :: "fl \<Rightarrow> fl" where
  "fl_exp (Num x) = Num (exp x)"
| "fl_exp NaN = NaN"

primrec fl_sum :: "fl list \<Rightarrow> fl" where
  "fl_sum [] = Num 0"
| "fl_sum (x # xs) = fl_add x (fl_sum xs)"

text \<open>\<^verbatim>\<open>np.dot\<close> of a row of real weights with a vector of floats.\<close>

definition fl_dot :: "real list \<Rightarrow> fl list \<Rightarrow> fl" where
  "fl_dot ws ys = fl_sum (map (\<lambda>(w, y). fl_mul (Num w) y) (zip ws ys))"

subsection \<open>The single-series fitter\<close>

text \<open>
  \<^verbatim>\<open>
  def get_lr_params(ts):
      xdata = np.arange(len(ts))
      xdata = sm.add_constant(xdata)
      model = sm.OLS(ts.values, xdata).fit()
      alpha, beta = model.params
      return alpha, beta
  \<close>
  numpy and statsmodels are third-party libraries; their functions are modelled by what
  they compute. \<^verbatim>\<open>add_constant\<close> puts a column of ones before the data and
  raises ValueError on an empty column (its range check reduces over an empty axis). It
  leaves the data alone only when the column is already a nonzero constant, which
  \<^verbatim>\<open>arange\<close> never is, since it starts at 0: that branch is left out.
  \<^verbatim>\<open>OLS(endog, exog).fit()\<close> uses its default method, the Moore-Penrose
  pseudo-inverse: \<open>params = pinv(exog) \<cdot> endog\<close>. For a matrix of two columns the
  pseudo-inverse has a closed form in each rank: \<open>(X\<^sup>T X)\<^sup>-\<^sup>1 X\<^sup>T\<close> at rank 2,
  \<open>X\<^sup>T / \<parallel>X\<parallel>\<^sup>2\<close> at rank 1, and 0 for the zero matrix. No input is validated
  (\<^verbatim>\<open>missing='none'\<close>).
\<close>

definition arange :: "nat \<Rightarrow> real list" where
  "arange n = map real [0..<n]"

definition add_constant :: "real list \<Rightarrow> py_error + (real \<times> real) list" where
  "add_constant xs = (if xs = [] then Inl ValueError else Inr (map (\<lambda>x. (1, x)) xs))"

definition pinv :: "(real \<times> real) list \<Rightarrow> real list \<times> real list" where
  "pinv X =
     (let s00 = (\<Sum>(c, x)\<leftarrow>X. c * c);
          s01 = (\<Sum>(c, x)\<leftarrow>X. c * x);
          s11 = (\<Sum>(c, x)\<leftarrow>X. x * x);
          d = s00 * s11 - s01 * s01
      in if d \<noteq> 0 then
           (map (\<lambda>(c, x). (s11 * c - s01 * x) / d) X,
            map (\<lambda>(c, x). (s00 * x - s01 * c) / d) X)
         else if s00 + s11 \<noteq> 0 then
           (map (\<lambda>(c, x). c / (s00 + s11)) X,
            map (\<lambda>(c, x). x / (s00 + s11)) X)
         else (map (\<lambda>_. 0) X, map (\<lambda>_. 0) X))"

definition OLS_fit_params :: "fl list \<Rightarrow> (real \<times> real) list \<Rightarrow> fl \<times> fl" where
  "OLS_fit_params endog exog =
     (let (row0, row1) = pinv exog in (fl_dot row0 endog, fl_dot row1 endog))"

definition get_lr_params :: "fl list \<Rightarrow> py_error + (fl \<times> fl)" where
  "get_lr_params ts =
     (case add_constant (arange (length ts)) of
        Inl e \<Rightarrow> Inl e
      | Inr xdata \<Rightarrow>
          (let (alpha, beta) = OLS_fit_params ts xdata in Inr (alpha, beta)))"

subsection \<open>The per-combination prediction sequence\<close>

text \<open>
  Modelled from the spec: the class \<^verbatim>\<open>YearRange\<close> of \<^verbatim>\<open>fbd_core.argparse\<close>,
  which is not among the sources. The code reads three attributes of it; two are
  sequences of years, "past years" and "forecast years".
\<close>

record YearRange =
  past_years :: "int list"
  forecast_years :: "int list"

text \<open>
  Modelled from the spec: the attribute \<^verbatim>\<open>years\<close> of the missing class
  \<^verbatim>\<open>YearRange\<close>, "the full ordered year sequence as their concatenation".
\<close>

definition years :: "YearRange \<Rightarrow> int list" where
  "years yrs = past_years yrs @ forecast_years yrs"

text \<open>
  \<^verbatim>\<open>
  def make_single_predictions(alpha, beta, years, decay):
      linear_years = np.arange(len(years.past_years))
      preds = alpha + (beta * linear_years)
      last = preds[-1]
      for year_index in range(len(years.forecast_years)):
          current = last + (beta * np.exp(-decay * year_index))
          preds = np.append(preds, current)
          last = current
      return preds
  \<close>
  The loop is a recursion over \<^verbatim>\<open>range(...)\<close> that threads \<^verbatim>\<open>preds\<close> and
  \<^verbatim>\<open>last\<close> (here \<open>lastv\<close>). \<^verbatim>\<open>preds[-1]\<close> on an empty array raises
  IndexError.
\<close>

fun forecast_loop :: "fl \<Rightarrow> fl \<Rightarrow> nat list \<Rightarrow> fl list \<times> fl \<Rightarrow> fl list \<times> fl" where
  "forecast_loop beta decay [] (preds, lastv) = (preds, lastv)"
| "forecast_loop beta decay (year_index # rest) (preds, lastv) =
     (let current = fl_add lastv (fl_mul beta (fl_exp (fl_mul (fl_neg decay) (Num (real year_index)))))
      in forecast_loop beta decay rest (preds @ [current], current))"

definition make_single_predictions :: "fl \<Rightarrow> fl \<Rightarrow> YearRange \<Rightarrow> fl \<Rightarrow> py_error + fl list" where
  "make_single_predictions alpha beta yrs decay =
     (let linear_years = arange (length (past_years yrs));
          preds = map (\<lambda>t. fl_add alpha (fl_mul beta (Num t))) linear_years
      in if preds = [] then Inl IndexError
         else Inr (fst (forecast_loop beta decay [0..<length (forecast_years yrs)]
                          (preds, last preds))))"

subsection \<open>Labelled arrays in a store\<close>

text \<open>
  An xarray object refers to a buffer of cells, and two objects may share one buffer
  (\<^verbatim>\<open>sel\<close> and \<^verbatim>\<open>loc\<close> give views, arithmetic and \<^verbatim>\<open>copy\<close> give new
  buffers). The store is a list of buffers, an address is an index into it, and a new
  buffer goes to the end. A cell is addressed by its labels: the key of a cell of a
  4-dimensional array is \<open>[year, sex, age_group, location]\<close>, whatever the order of
  the axes in memory, and the key of a cell of a parameter array is
  \<open>[sex, age_group, location]\<close>. A label that is not in the array raises KeyError.
  An operation on the store returns the new store, or the error it raises together with
  the store as it is at that moment.
\<close>

type_synonym key = "int list"
type_synonym buffer = "key \<rightharpoonup> fl"
type_synonym heap = "buffer list"

record DataArray =
  da_year_id :: "int list"
  da_sex_id :: "int list"
  da_age_group_id :: "int list"
  da_location_id :: "int list"
  da_data :: nat

record Dataset =
  ds_sex_id :: "int list"
  ds_age_group_id :: "int list"
  ds_location_id :: "int list"
  ds_alpha :: nat
  ds_beta :: nat

definition alloc :: "buffer \<Rightarrow> heap \<Rightarrow> nat \<times> heap" where
  "alloc b h = (length h, h @ [b])"

text \<open>Reading one cell, and the cells of a slice in order (\<^verbatim>\<open>.loc[...].values\<close>).\<close>

definition loc_get :: "nat \<Rightarrow> key \<Rightarrow> heap \<Rightarrow> (py_error \<times> heap) + fl" where
  "loc_get a k h = (case (h ! a) k of None \<Rightarrow> Inl (KeyError, h) | Some v \<Rightarrow> Inr v)"

fun read_cells :: "buffer \<Rightarrow> key list \<Rightarrow> py_error + fl list" where
  "read_cells b [] = Inr []"
| "read_cells b (k # ks) =
     (case b k of
        None \<Rightarrow> Inl KeyError
      | Some v \<Rightarrow> (case read_cells b ks of Inl e \<Rightarrow> Inl e | Inr vs \<Rightarrow> Inr (v # vs)))"

text \<open>
  Writing one cell (\<^verbatim>\<open>.loc[...] = scalar\<close>) and a slice (\<^verbatim>\<open>.loc[...] = array\<close>).
  numpy repeats a value of length 1 over the slice and raises ValueError when the
  lengths still differ.
\<close>

definition loc_set :: "nat \<Rightarrow> key \<Rightarrow> fl \<Rightarrow> heap \<Rightarrow> (py_error \<times> heap) + heap" where
  "loc_set a k v h =
     (case (h ! a) k of
        None \<Rightarrow> Inl (KeyError, h)
      | Some _ \<Rightarrow> Inr (h[a := (h ! a)(k \<mapsto> v)]))"

definition loc_assign ::
  "nat \<Rightarrow> key list \<Rightarrow> fl list \<Rightarrow> heap \<Rightarrow> (py_error \<times> heap) + heap" where
  "loc_assign a ks vs h =
     (let vs' = (if length vs = 1 then replicate (length ks) (hd vs) else vs)
      in if list_ex (\<lambda>k. (h ! a) k = None) ks then Inl (KeyError, h)
         else if length vs' \<noteq> length ks then Inl (ValueError, h)
         else Inr (h[a := (h ! a) ++ map_of (zip ks vs')]))"

text \<open>A \<^verbatim>\<open>for\<close> loop whose body updates the store or raises.\<close>

fun for_each ::
  "('a \<Rightarrow> heap \<Rightarrow> (py_error \<times> heap) + heap) \<Rightarrow> 'a list \<Rightarrow> heap \<Rightarrow> (py_error \<times> heap) + heap" where
  "for_each body [] h = Inr h"
| "for_each body (x # xs) h =
     (case body x h of Inl e \<Rightarrow> Inl e | Inr h' \<Rightarrow> for_each body xs h')"

subsection \<open>The grid fitter\<close>

text \<open>
  \<^verbatim>\<open>
  def get_all_lr_params(da):
      param_da = da.sel(year_id=da.year_id.values.min()).drop("year_id") * np.nan
      param_ds = xr.Dataset({"alpha": param_da.copy(),
                             "beta": param_da.copy()})
      for sex_id in da.sex_id.values:
          for age_group_id in da.age_group_id.values:
              for location_id in da.location_id.values:
                  sub_dict = {"location_id": location_id,
                              "age_group_id": age_group_id,
                              "sex_id": sex_id}
                  ts = da.loc[sub_dict]
                  alpha, beta = get_lr_params(ts)
                  param_ds["alpha"].loc[sub_dict] = alpha
                  param_ds["beta"].loc[sub_dict] = beta
      return param_ds
  \<close>
  \<^verbatim>\<open>min()\<close> of an empty coordinate raises ValueError. The product with
  \<^verbatim>\<open>np.nan\<close> reads the slice of the first year and builds a new buffer
  (\<open>sel_year_times_nan\<close>); each
  \<^verbatim>\<open>copy()\<close> builds another. \<^verbatim>\<open>ts\<close> is a view of \<^verbatim>\<open>da\<close>: its values are
  read from the store when \<^verbatim>\<open>get_lr_params\<close> runs.
\<close>

definition sel_year_times_nan :: "buffer \<Rightarrow> int \<Rightarrow> buffer" where
  "sel_year_times_nan b y =
     (\<lambda>k. case b (y # k) of None \<Rightarrow> None | Some v \<Rightarrow> Some (fl_mul v NaN))"

definition fit_one ::
  "DataArray \<Rightarrow> Dataset \<Rightarrow> int \<Rightarrow> int \<Rightarrow> int \<Rightarrow> heap \<Rightarrow> (py_error \<times> heap) + heap" where
  "fit_one da param_ds sex_id age_group_id location_id h =
     (case read_cells (h ! da_data da)
             (map (\<lambda>y. [y, sex_id, age_group_id, location_id]) (da_year_id da)) of
        Inl e \<Rightarrow> Inl (e, h)
      | Inr ts \<Rightarrow>
          (case get_lr_params ts of
             Inl e \<Rightarrow> Inl (e, h)
           | Inr (alpha, beta) \<Rightarrow>
               (case loc_set (ds_alpha param_ds) [sex_id, age_group_id, location_id] alpha h of
                  Inl e \<Rightarrow> Inl e
                | Inr h1 \<Rightarrow>
                    loc_set (ds_beta param_ds) [sex_id, age_group_id, location_id] beta h1)))"

definition get_all_lr_params ::
  "DataArray \<Rightarrow> heap \<Rightarrow> (py_error \<times> heap) + (Dataset \<times> heap)" where
  "get_all_lr_params da h =
     (if da_year_id da = [] then Inl (ValueError, h)
      else
        let ymin = fold min (tl (da_year_id da)) (hd (da_year_id da));
            (param_da, h1) = alloc (sel_year_times_nan (h ! da_data da) ymin) h;
            (alpha, h2) = alloc (h1 ! param_da) h1;
            (beta, h3) = alloc (h2 ! param_da) h2;
            param_ds = \<lparr>ds_sex_id = da_sex_id da,
                        ds_age_group_id = da_age_group_id da,
                        ds_location_id = da_location_id da,
                        ds_alpha = alpha, ds_beta = beta\<rparr>
        in case for_each (\<lambda>sex_id.
                  for_each (\<lambda>age_group_id.
                    for_each (\<lambda>location_id.
                      fit_one da param_ds sex_id age_group_id location_id)
                    (da_location_id da))
                  (da_age_group_id da))
                (da_sex_id da) h3 of
             Inl e \<Rightarrow> Inl e
           | Inr h4 \<Rightarrow> Inr (param_ds, h4))"

subsection \<open>The decayed-drift forecaster\<close>

text \<open>
  \<^verbatim>\<open>
  def get_decayed_drift_preds(eps_da, years, decay):
      params = get_all_lr_params(eps_da)
      year_da = xr.DataArray(np.repeat(1, len(years.years)),
                             coords=[years.years], dims=["year_id"])
      pred_da = params["alpha"] * year_da * np.nan
      for sex_id in pred_da.sex_id.values:
          for age_group_id in pred_da.age_group_id.values:
              for location_id in pred_da.location_id.values:
                  sub_dict = {"sex_id": sex_id,
                              "age_group_id": age_group_id,
                              "location_id": location_id}
                  alpha = params["alpha"].loc[sub_dict].values
                  beta = params["beta"].loc[sub_dict].values
                  pred_da.loc[sub_dict] = make_single_predictions(alpha, beta,
                                                                  years, decay)
      return pred_da
  \<close>
  \<open>ones_over\<close> is the buffer of \<^verbatim>\<open>year_da\<close>. The two products that shape
  \<^verbatim>\<open>pred_da\<close> broadcast the parameter array over the years
  (\<open>broadcast_times_nan\<close>); the buffer between them is dropped at once and the model
  builds the result in one step.
\<close>

definition ones_over :: "int list \<Rightarrow> buffer" where
  "ones_over ys =
     (\<lambda>k. case k of
            [y] \<Rightarrow> if y \<in> set ys then Some (Num 1) else None
          | _ \<Rightarrow> None)"

definition broadcast_times_nan :: "buffer \<Rightarrow> buffer \<Rightarrow> buffer" where
  "broadcast_times_nan p yb =
     (\<lambda>k. case k of
            [] \<Rightarrow> None
          | y # k3 \<Rightarrow>
              (case p k3 of
                 None \<Rightarrow> None
               | Some v \<Rightarrow>
                   (case yb [y] of
                      None \<Rightarrow> None
                    | Some w \<Rightarrow> Some (fl_mul (fl_mul v w) NaN))))"

definition forecast_one ::
  "Dataset \<Rightarrow> DataArray \<Rightarrow> YearRange \<Rightarrow> fl \<Rightarrow> int \<Rightarrow> int \<Rightarrow> int \<Rightarrow> heap \<Rightarrow>
     (py_error \<times> heap) + heap" where
  "forecast_one params pred_da yrs decay sex_id age_group_id location_id h =
     (case loc_get (ds_alpha params) [sex_id, age_group_id, location_id] h of
        Inl e \<Rightarrow> Inl e
      | Inr alpha \<Rightarrow>
          (case loc_get (ds_beta params) [sex_id, age_group_id, location_id] h of
             Inl e \<Rightarrow> Inl e
           | Inr beta \<Rightarrow>
               (case make_single_predictions alpha beta yrs decay of
                  Inl e \<Rightarrow> Inl (e, h)
                | Inr preds \<Rightarrow>
                    loc_assign (da_data pred_da)
                      (map (\<lambda>y. [y, sex_id, age_group_id, location_id]) (da_year_id pred_da))
                      preds h)))"

definition get_decayed_drift_preds ::
  "DataArray \<Rightarrow> YearRange \<Rightarrow> fl \<Rightarrow> heap \<Rightarrow> (py_error \<times> heap) + (DataArray \<times> heap)" where
  "get_decayed_drift_preds eps_da yrs decay h =
     (case get_all_lr_params eps_da h of
        Inl e \<Rightarrow> Inl e
      | Inr (params, h1) \<Rightarrow>
          (let (year_da, h2) = alloc (ones_over (years yrs)) h1;
               (pred_buf, h3) =
                 alloc (broadcast_times_nan (h2 ! ds_alpha params) (h2 ! year_da)) h2;
               pred_da = \<lparr>da_year_id = years yrs,
                          da_sex_id = ds_sex_id params,
                          da_age_group_id = ds_age_group_id params,
                          da_location_id = ds_location_id params,
                          da_data = pred_buf\<rparr>
           in case for_each (\<lambda>sex_id.
                     for_each (\<lambda>age_group_id.
                       for_each (\<lambda>location_id.
                         forecast_one params pred_da yrs decay sex_id age_group_id location_id)
                       (da_location_id pred_da))
                     (da_age_group_id pred_da))
                   (da_sex_id pred_da) h3 of
                Inl e \<Rightarrow> Inl e
              | Inr h4 \<Rightarrow> Inr (pred_da, h4)))"

text \<open>
  A well-formed array in a store: its buffer is allocated, the labels of each axis are
  distinct, and the buffer holds exactly one cell for each combination of labels. With
  a repeated label \<^verbatim>\<open>loc\<close> selects several cells at once, which the model does
  not describe.
\<close>

definition keys3 :: "int list \<Rightarrow> int list \<Rightarrow> int list \<Rightarrow> key list" where
  "keys3 ss as ls = concat (map (\<lambda>s. concat (map (\<lambda>a. map (\<lambda>l. [s, a, l]) ls) as)) ss)"

definition keys4 :: "DataArray \<Rightarrow> key list" where
  "keys4 da =
     concat (map (\<lambda>y. map (\<lambda>k. y # k)
                         (keys3 (da_sex_id da) (da_age_group_id da) (da_location_id da)))
                 (da_year_id da))"

definition wf_da :: "DataArray \<Rightarrow> heap \<Rightarrow> bool" where
  "wf_da da h \<longleftrightarrow>
     da_data da < length h \<and>
     distinct (da_year_id da) \<and> distinct (da_sex_id da) \<and>
     distinct (da_age_group_id da) \<and> distinct (da_location_id da) \<and>
     dom (h ! da_data da) = set (keys4 da)"

text \<open>
  A small array for the examples: three years, two sexes, one age group, one location.
  The series of sex 1 lies on the line \<open>1 + t\<close>, the series of sex 2 is constant.
\<close>

definition example_da :: DataArray where
  "example_da = \<lparr>da_year_id = [2000, 2001, 2002], da_sex_id = [1, 2],
                  da_age_group_id = [10], da_location_id = [6], da_data = 0\<rparr>"

definition example_heap :: heap where
  "example_heap =
     [map_of [([2000, 1, 10, 6], Num 1), ([2001, 1, 10, 6], Num 2), ([2002, 1, 10, 6], Num 3),
              ([2000, 2, 10, 6], Num 4), ([2001, 2, 10, 6], Num 4), ([2002, 2, 10, 6], Num 4)]]"

definition example_years :: YearRange where
  "example_years = \<lparr>past_years = [2000, 2001, 2002], forecast_years = [2003, 2004]\<rparr>"

text \<open>An array with no year and no sex, and one with years and no sex; their buffers are empty.\<close>

definition empty_da :: DataArray where
  "empty_da = \<lparr>da_year_id = [], da_sex_id = [],
                da_age_group_id = [10], da_location_id = [6], da_data = 0\<rparr>"

definition no_sex_da :: DataArray where
  "no_sex_da = \<lparr>da_year_id = [2000, 2001, 2002], da_sex_id = [],
                 da_age_group_id = [10], da_location_id = [6], da_data = 0\<rparr>"

definition empty_heap :: heap where
  "empty_heap = [Map.empty]"

section \<open>Properties\<close>

subsection \<open>The prediction sequence on finite numbers\<close>

text \<open>
  The loop started on a non-empty sequence of finite numbers keeps what it was given,
  appends one value for each index it visits, and each appended value is the one before
  it plus the attenuated slope.
\<close>

lemma forecast_loop_Num:
  "ps \<noteq> [] \<Longrightarrow>
   \<exists>qs. forecast_loop (Num b) (Num d) js (map Num ps, Num (last ps)) = (map Num qs, Num (last qs)) \<and>
        length qs = length ps + length js \<and> take (length ps) qs = ps \<and>
        (\<forall>i<length js. qs ! (length ps + i) = qs ! (length ps + i - 1) + b * exp (- d * real (js ! i)))"
proof (induction js arbitrary: ps)
  case Nil
  show ?case by (rule exI [of _ ps]) simp
next
  case (Cons j js)
  define c where "c = last ps + b * exp (- d * real j)"
  have ne: "ps @ [c] \<noteq> []" by simp
  from Cons.IH [OF ne] obtain qs where
    run: "forecast_loop (Num b) (Num d) js (map Num (ps @ [c]), Num (last (ps @ [c]))) = (map Num qs, Num (last qs))"
    and len: "length qs = length (ps @ [c]) + length js"
    and tk: "take (length (ps @ [c])) qs = ps @ [c]"
    and rec: "\<forall>i<length js. qs ! (length (ps @ [c]) + i) = qs ! (length (ps @ [c]) + i - 1) + b * exp (- d * real (js ! i))"
    by blast
  have step: "forecast_loop (Num b) (Num d) (j # js) (map Num ps, Num (last ps)) = (map Num qs, Num (last qs))"
    using run by (simp add: c_def)
  have tk': "take (length ps) qs = ps"
  proof -
    have "take (length ps) qs = take (length ps) (take (Suc (length ps)) qs)" by simp
    also have "\<dots> = take (length ps) (ps @ [c])" using tk by simp
    finally show ?thesis by simp
  qed
  have at_n: "qs ! length ps = c"
  proof -
    have "qs ! length ps = take (Suc (length ps)) qs ! length ps" by simp
    also have "\<dots> = (ps @ [c]) ! length ps" using tk by simp
    finally show ?thesis by simp
  qed
  have before: "qs ! (length ps - 1) = last ps"
  proof -
    have "length ps - 1 < length ps" using Cons.prems by (cases ps) auto
    then have "qs ! (length ps - 1) = take (length ps) qs ! (length ps - 1)" by simp
    then show ?thesis using tk' Cons.prems by (simp add: last_conv_nth)
  qed
  have "\<forall>i<length (j # js). qs ! (length ps + i) = qs ! (length ps + i - 1) + b * exp (- d * real ((j # js) ! i))"
  proof (intro allI impI)
    fix i assume i: "i < length (j # js)"
    show "qs ! (length ps + i) = qs ! (length ps + i - 1) + b * exp (- d * real ((j # js) ! i))"
    proof (cases i)
      case 0
      then show ?thesis using at_n before by (simp add: c_def)
    next
      case (Suc i')
      then have "i' < length js" using i by simp
      with rec show ?thesis using Suc by simp
    qed
  qed
  with step len tk' show ?case by auto
qed

text \<open>
  With at least one past year and finite arguments, \<open>make_single_predictions\<close> returns
  the fit line over the past years followed by the recursively attenuated forecast.
\<close>

lemma msp_Num:
  assumes "past_years yrs \<noteq> []"
  shows "\<exists>ps. make_single_predictions (Num alpha) (Num beta) yrs (Num decay) = Inr (map Num ps) \<and>
            length ps = length (past_years yrs) + length (forecast_years yrs) \<and>
            (\<forall>i<length (past_years yrs). ps ! i = alpha + beta * real i) \<and>
            (\<forall>j<length (forecast_years yrs).
               ps ! (length (past_years yrs) + j) =
               ps ! (length (past_years yrs) + j - 1) + beta * exp (- decay * real j))"
proof -
  define P where "P = length (past_years yrs)"
  define F where "F = length (forecast_years yrs)"
  define lin where "lin = map (\<lambda>i. alpha + beta * real i) [0..<P]"
  have P: "0 < P" using assms by (simp add: P_def)
  then have ne: "lin \<noteq> []" by (simp add: lin_def)
  have len: "length lin = P" by (simp add: lin_def)
  have preds: "map (\<lambda>t. fl_add (Num alpha) (fl_mul (Num beta) (Num t))) (arange P) = map Num lin"
    by (simp add: arange_def lin_def)
  from forecast_loop_Num [OF ne, of beta decay "[0..<F]"] obtain qs where
    run: "forecast_loop (Num beta) (Num decay) [0..<F] (map Num lin, Num (last lin)) = (map Num qs, Num (last qs))"
    and qlen: "length qs = length lin + length [0..<F]"
    and tk: "take (length lin) qs = lin"
    and rec: "\<forall>i<length [0..<F]. qs ! (length lin + i) = qs ! (length lin + i - 1) + beta * exp (- decay * real ([0..<F] ! i))"
    by blast
  have lastl: "last (map Num lin) = Num (last lin)" using ne by (simp add: last_map)
  have ane: "arange P \<noteq> []" using P by (simp add: arange_def)
  have res: "make_single_predictions (Num alpha) (Num beta) yrs (Num decay) = Inr (map Num qs)"
    using run ne lastl preds ane
    by (simp add: make_single_predictions_def Let_def P_def [symmetric] F_def [symmetric])
  have past: "\<forall>i<P. qs ! i = alpha + beta * real i"
  proof (intro allI impI)
    fix i assume "i < P"
    then have "qs ! i = take (length lin) qs ! i" using len by simp
    also have "\<dots> = lin ! i" using tk by simp
    also have "\<dots> = alpha + beta * real i" using \<open>i < P\<close> by (simp add: lin_def)
    finally show "qs ! i = alpha + beta * real i" .
  qed
  have fut: "\<forall>j<F. qs ! (P + j) = qs ! (P + j - 1) + beta * exp (- decay * real j)"
    using rec len by simp
  show ?thesis
    using res qlen len past fut unfolding P_def F_def by auto
qed


text \<open>
  C1. With \<open>P \<ge> 1\<close> past years and \<open>F\<close> forecast years, the sequence returned by
  \<open>make_single_predictions\<close> has length \<open>P + F\<close>, one value for each year of the
  year range in order; its value at \<open>i < P\<close> is \<open>alpha + beta \<cdot> i\<close>, and its value
  at \<open>P + j\<close>, for \<open>j < F\<close>, is the value before it plus
  \<open>beta \<cdot> exp (- decay \<cdot> j)\<close>, so the recursion starts from the value at \<open>P - 1\<close>.
\<close>

theorem make_single_predictions_sequence:
  assumes "past_years yrs \<noteq> []"
  shows "\<exists>ps. make_single_predictions (Num alpha) (Num beta) yrs (Num decay) = Inr (map Num ps) \<and>
            length ps = length (past_years yrs) + length (forecast_years yrs) \<and>
            length ps = length (years yrs) \<and>
            (\<forall>i<length (past_years yrs). ps ! i = alpha + beta * real i) \<and>
            (\<forall>j<length (forecast_years yrs).
               ps ! (length (past_years yrs) + j) =
               ps ! (length (past_years yrs) + j - 1) + beta * exp (- decay * real j))"
proof -
  from msp_Num [OF assms, of alpha beta decay] obtain ps where
    "make_single_predictions (Num alpha) (Num beta) yrs (Num decay) = Inr (map Num ps)"
    "length ps = length (past_years yrs) + length (forecast_years yrs)"
    "\<forall>i<length (past_years yrs). ps ! i = alpha + beta * real i"
    "\<forall>j<length (forecast_years yrs).
       ps ! (length (past_years yrs) + j) =
       ps ! (length (past_years yrs) + j - 1) + beta * exp (- decay * real j)"
    by blast
  then show ?thesis by (intro exI [of _ ps]) (simp add: years_def)
qed

text \<open>
  The scenario of the specification: three past years on the line \<open>1 + i\<close>, two forecast
  years, decay \<open>ln 2\<close>; the predictions are 1, 2, 3, 4 and 4.5.
\<close>

theorem make_single_predictions_sequence_witness:
  "past_years \<lparr>past_years = [2000, 2001, 2002], forecast_years = [2003, 2004]\<rparr> \<noteq> [] \<and>
   (\<exists>ps. make_single_predictions (Num 1) (Num 1)
            \<lparr>past_years = [2000, 2001, 2002], forecast_years = [2003, 2004]\<rparr> (Num (ln 2))
          = Inr (map Num ps) \<and>
         length ps = 5 \<and> ps ! 0 = 1 \<and> ps ! 1 = 2 \<and> ps ! 2 = 3 \<and> ps ! 3 = 4 \<and> ps ! 4 = 9 / 2)"
proof -
  let ?Y = "\<lparr>past_years = [2000, 2001, 2002], forecast_years = [2003, 2004]\<rparr>"
  have h: "past_years ?Y \<noteq> []" by simp
  from make_single_predictions_sequence [OF h, of 1 1 "ln 2"] obtain ps where
    r: "make_single_predictions (Num 1) (Num 1) ?Y (Num (ln 2)) = Inr (map Num ps)"
    and l: "length ps = length (past_years ?Y) + length (forecast_years ?Y)"
    and p: "\<forall>i<length (past_years ?Y). ps ! i = 1 + 1 * real i"
    and f: "\<forall>j<length (forecast_years ?Y).
              ps ! (length (past_years ?Y) + j) =
              ps ! (length (past_years ?Y) + j - 1) + 1 * exp (- ln 2 * real j)"
    by blast
  have l5: "length ps = 5" using l by simp
  have p0: "ps ! 0 = 1" using p [rule_format, of 0] by simp
  have p1: "ps ! 1 = 2" using p [rule_format, of 1] by simp
  have p2: "ps ! 2 = 3" using p [rule_format, of 2] by simp
  have p3: "ps ! 3 = 4" using f [rule_format, of 0] p2 by (simp add: eval_nat_numeral)
  have e: "exp (- ln 2 * real 1) = (1 / 2 :: real)" by (simp add: exp_minus)
  have "ps ! 4 = ps ! 3 + 1 / 2" using f [rule_format, of 1] e by (simp add: eval_nat_numeral)
  then have p4: "ps ! 4 = 9 / 2" using p3 by simp
  show ?thesis using h r l5 p0 p1 p2 p3 p4 by blast
qed





text \<open>
  C9. Without a past year \<open>make_single_predictions\<close> raises IndexError, whatever the
  other arguments are, so every call that returns a sequence had at least one past year.
\<close>

theorem make_single_predictions_needs_past_year:
  "(past_years yrs = [] \<longrightarrow> make_single_predictions alpha beta yrs decay = Inl IndexError) \<and>
   (\<forall>preds. make_single_predictions alpha beta yrs decay = Inr preds \<longrightarrow>
      1 \<le> length (past_years yrs))"
  by (cases "past_years yrs") (simp_all add: make_single_predictions_def arange_def Let_def)

theorem make_single_predictions_needs_past_year_witness:
  "past_years \<lparr>past_years = [], forecast_years = [2003, 2004]\<rparr> = [] \<and>
   make_single_predictions (Num 1) (Num 1) \<lparr>past_years = [], forecast_years = [2003, 2004]\<rparr> (Num 0)
     = Inl IndexError"
  using make_single_predictions_needs_past_year
          [of "\<lparr>past_years = [], forecast_years = [2003, 2004]\<rparr>" "Num 1" "Num 1" "Num 0"]
  by simp

text \<open>
  C10. With at least one past and one forecast year, the first forecast value is the
  last past value plus the whole slope \<open>beta\<close>, for every decay rate.
\<close>

theorem first_forecast_step_not_attenuated:
  assumes "past_years yrs \<noteq> []" and "forecast_years yrs \<noteq> []"
  shows "\<exists>ps. make_single_predictions (Num alpha) (Num beta) yrs (Num decay) = Inr (map Num ps) \<and>
            length (past_years yrs) < length ps \<and>
            ps ! length (past_years yrs) = ps ! (length (past_years yrs) - 1) + beta"
proof -
  from msp_Num [OF assms(1), of alpha beta decay] obtain ps where
    r: "make_single_predictions (Num alpha) (Num beta) yrs (Num decay) = Inr (map Num ps)"
    and l: "length ps = length (past_years yrs) + length (forecast_years yrs)"
    and f: "\<forall>j<length (forecast_years yrs).
              ps ! (length (past_years yrs) + j) =
              ps ! (length (past_years yrs) + j - 1) + beta * exp (- decay * real j)"
    by blast
  have "0 < length (forecast_years yrs)" using assms(2) by simp
  with f have "ps ! (length (past_years yrs) + 0) =
               ps ! (length (past_years yrs) + 0 - 1) + beta * exp (- decay * real 0)"
    by blast
  then show ?thesis using r l \<open>0 < length (forecast_years yrs)\<close> by auto
qed

theorem first_forecast_step_not_attenuated_witness:
  "past_years \<lparr>past_years = [2000, 2001, 2002], forecast_years = [2003, 2004]\<rparr> \<noteq> [] \<and>
   forecast_years \<lparr>past_years = [2000, 2001, 2002], forecast_years = [2003, 2004]\<rparr> \<noteq> [] \<and>
   (\<exists>ps. make_single_predictions (Num 1) (Num 7)
            \<lparr>past_years = [2000, 2001, 2002], forecast_years = [2003, 2004]\<rparr> (Num 3)
          = Inr (map Num ps) \<and> 3 < length ps \<and> ps ! 3 = ps ! 2 + 7)"
proof -
  let ?Y = "\<lparr>past_years = [2000, 2001, 2002], forecast_years = [2003, 2004]\<rparr>"
  have h: "past_years ?Y \<noteq> []" by simp
  have g: "forecast_years ?Y \<noteq> []" by simp
  from first_forecast_step_not_attenuated [OF h g, of 1 7 3] obtain ps where
    r: "make_single_predictions (Num 1) (Num 7) ?Y (Num 3) = Inr (map Num ps)"
    and l: "length (past_years ?Y) < length ps"
    and f: "ps ! length (past_years ?Y) = ps ! (length (past_years ?Y) - 1) + 7"
    by blast
  have "3 < length ps" using l by simp
  moreover have "ps ! 3 = ps ! 2 + 7" using f by (simp add: eval_nat_numeral)
  ultimately show ?thesis using h g r by blast
qed

subsection \<open>The single-series fitter\<close>

text \<open>Sums and dot products of finite numbers are finite; one NaN makes them NaN.\<close>

lemma fl_sum_Num: "fl_sum (map Num xs) = Num (sum_list xs)"
  by (induction xs) simp_all

lemma fl_add_NaN_right: "fl_add x NaN = NaN"
  by (cases x) simp_all

lemma fl_sum_NaN: "NaN \<in> set xs \<Longrightarrow> fl_sum xs = NaN"
  by (induction xs) (auto simp: fl_add_NaN_right)

lemma fl_dot_Num:
  "fl_dot (map f xs) (map (\<lambda>x. Num (g x)) xs) = Num (\<Sum>x\<leftarrow>xs. f x * g x)"
  by (induction xs) (simp_all add: fl_dot_def)

lemma fl_dot_NaN:
  assumes "length ws = length ys" and "NaN \<in> set ys"
  shows "fl_dot ws ys = NaN"
proof -
  from assms(2) obtain i where i: "i < length ys" "ys ! i = NaN"
    by (auto simp: in_set_conv_nth)
  then have "map (\<lambda>(w, y). fl_mul (Num w) y) (zip ws ys) ! i = NaN"
    using assms(1) by simp
  moreover have "i < length (map (\<lambda>(w, y). fl_mul (Num w) y) (zip ws ys))"
    using i assms(1) by simp
  ultimately have "NaN \<in> set (map (\<lambda>(w, y). fl_mul (Num w) y) (zip ws ys))"
    by (metis nth_mem)
  then show ?thesis by (simp add: fl_dot_def fl_sum_NaN)
qed

text \<open>
  The design matrix of \<open>n\<close> observations has the columns \<open>1\<close> and \<open>0, \<dots>, n - 1\<close>.
  The determinant of its Gram matrix is \<open>n\<^sup>2 (n\<^sup>2 - 1) / 12\<close>, positive from two
  observations on.
\<close>

lemma sum_upt_real: "(\<Sum>t\<leftarrow>[0..<n]. real t) = real n * (real n - 1) / 2"
  by (induction n) (simp_all add: field_simps)

lemma sum_upt_sq: "(\<Sum>t\<leftarrow>[0..<n]. real t * real t) = (real n - 1) * real n * (2 * real n - 1) / 6"
  by (induction n) (simp_all add: field_simps power2_eq_square)

lemma design_det:
  "real n * (\<Sum>t\<leftarrow>[0..<n]. real t * real t) - (\<Sum>t\<leftarrow>[0..<n]. real t) * (\<Sum>t\<leftarrow>[0..<n]. real t)
    = real n * real n * (real n * real n - 1) / 12"
  by (simp add: sum_upt_real sum_upt_sq field_simps)

lemma design_det_pos:
  assumes "2 \<le> n"
  shows "0 < real n * (\<Sum>t\<leftarrow>[0..<n]. real t * real t) - (\<Sum>t\<leftarrow>[0..<n]. real t) * (\<Sum>t\<leftarrow>[0..<n]. real t)"
proof -
  have "2 \<le> real n" using assms by simp
  then have "2 * 2 \<le> real n * real n" by (intro mult_mono) simp_all
  then have "1 < real n * real n" by simp
  then have "0 < real n * real n * (real n * real n - 1) / 12" by simp
  then show ?thesis by (simp only: design_det)
qed

lemma sum_affine_prod:
  "(\<Sum>t\<leftarrow>ts. (p + q * real t) * (a + b * real t))
   = p * a * real (length ts) + (p * b + q * a) * (\<Sum>t\<leftarrow>ts. real t) + q * b * (\<Sum>t\<leftarrow>ts. real t * real t)"
  by (induction ts) (simp_all add: algebra_simps)


lemma add_constant_arange:
  "0 < n \<Longrightarrow> add_constant (arange n) = Inr (map (\<lambda>t. (1, real t)) [0..<n])"
  by (simp add: add_constant_def arange_def)

lemma get_lr_params_nonempty:
  "ts \<noteq> [] \<Longrightarrow> get_lr_params ts =
     Inr (OLS_fit_params ts (map (\<lambda>t. (1, real t)) [0..<length ts]))"
  by (simp add: get_lr_params_def add_constant_arange)

lemma pinv_full_rank:
  assumes "2 \<le> n"
  shows "pinv (map (\<lambda>t. (1, real t)) [0..<n]) =
     (let s01 = (\<Sum>t\<leftarrow>[0..<n]. real t); s11 = (\<Sum>t\<leftarrow>[0..<n]. real t * real t);
          d = real n * s11 - s01 * s01
      in (map (\<lambda>t. s11 / d + (- s01 / d) * real t) [0..<n],
          map (\<lambda>t. (- s01 / d) + (real n / d) * real t) [0..<n]))"
proof -
  have d: "real n * (\<Sum>t\<leftarrow>[0..<n]. real t * real t) - (\<Sum>t\<leftarrow>[0..<n]. real t) * (\<Sum>t\<leftarrow>[0..<n]. real t) \<noteq> 0"
    using design_det_pos [OF assms] by simp
  show ?thesis
    using d by (simp add: pinv_def Let_def comp_def sum_list_triv diff_divide_distrib)
qed

text \<open>
  C8. For \<open>n \<ge> 2\<close> observations that lie on the line \<open>a + b \<cdot> i\<close>,
  \<open>i = 0, \<dots>, n - 1\<close>, \<open>get_lr_params\<close> returns \<open>alpha = a\<close> and \<open>beta = b\<close>.
  Over the real numbers the recovery is exact, which is within any tolerance.
\<close>

theorem get_lr_params_recovers_line:
  assumes "2 \<le> n"
  shows "get_lr_params (map (\<lambda>i. Num (a + b * real i)) [0..<n]) = Inr (Num a, Num b)"
proof -
  define s01 where "s01 = (\<Sum>t\<leftarrow>[0..<n]. real t)"
  define s11 where "s11 = (\<Sum>t\<leftarrow>[0..<n]. real t * real t)"
  define d where "d = real n * s11 - s01 * s01"
  have d: "d \<noteq> 0" using design_det_pos [OF assms] by (simp add: d_def s01_def s11_def)
  have ne: "map (\<lambda>i. Num (a + b * real i)) [0..<n] \<noteq> []" using assms by simp
  have r0: "fl_dot (map (\<lambda>t. s11 / d + (- s01 / d) * real t) [0..<n])
              (map (\<lambda>i. Num (a + b * real i)) [0..<n]) = Num a"
  proof -
    have "(\<Sum>t\<leftarrow>[0..<n]. (s11 / d + (- s01 / d) * real t) * (a + b * real t))
          = s11 / d * a * real n + (s11 / d * b + (- s01 / d) * a) * s01 + (- s01 / d) * b * s11"
      by (simp only: sum_affine_prod s01_def s11_def) simp
    also have "\<dots> = a * (real n * s11 - s01 * s01) / d" using d by (simp add: field_simps)
    also have "\<dots> = a" using d by (simp add: d_def)
    finally show ?thesis by (simp only: fl_dot_Num)
  qed
  have r1: "fl_dot (map (\<lambda>t. (- s01 / d) + (real n / d) * real t) [0..<n])
              (map (\<lambda>i. Num (a + b * real i)) [0..<n]) = Num b"
  proof -
    have "(\<Sum>t\<leftarrow>[0..<n]. ((- s01 / d) + (real n / d) * real t) * (a + b * real t))
          = (- s01 / d) * a * real n + ((- s01 / d) * b + (real n / d) * a) * s01 + (real n / d) * b * s11"
      by (simp only: sum_affine_prod s01_def s11_def) simp
    also have "\<dots> = b * (real n * s11 - s01 * s01) / d" using d by (simp add: field_simps)
    also have "\<dots> = b" using d by (simp add: d_def)
    finally show ?thesis by (simp only: fl_dot_Num)
  qed
  have "pinv (map (\<lambda>t. (1, real t)) [0..<n]) =
          (map (\<lambda>t. s11 / d + (- s01 / d) * real t) [0..<n],
           map (\<lambda>t. (- s01 / d) + (real n / d) * real t) [0..<n])"
    using pinv_full_rank [OF assms] by (simp add: Let_def s01_def s11_def d_def)
  then show ?thesis
    using r0 r1 ne by (simp add: get_lr_params_nonempty OLS_fit_params_def)
qed


theorem get_lr_params_recovers_line_witness:
  "2 \<le> (3::nat) \<and> get_lr_params [Num 1, Num 2, Num 3] = Inr (Num 1, Num 1)"
proof -
  have h: "2 \<le> (3::nat)" by simp
  have "map (\<lambda>i. Num (1 + 1 * real i)) [0..<3] = [Num 1, Num 2, Num 3]"
    by (simp add: upt_rec)
  then show ?thesis using get_lr_params_recovers_line [OF h, of 1 1] by simp
qed

lemma pinv_lengths:
  "length (fst (pinv X)) = length X \<and> length (snd (pinv X)) = length X"
  by (simp add: pinv_def Let_def)

lemma get_lr_params_NaN:
  assumes "NaN \<in> set ts"
  shows "get_lr_params ts = Inr (NaN, NaN)"
proof -
  have ne: "ts \<noteq> []" using assms by auto
  let ?X = "map (\<lambda>t. (1, real t)) [0..<length ts]"
  have "length (fst (pinv ?X)) = length ts" "length (snd (pinv ?X)) = length ts"
    using pinv_lengths [of ?X] by simp_all
  then have "fl_dot (fst (pinv ?X)) ts = NaN" "fl_dot (snd (pinv ?X)) ts = NaN"
    using assms by (simp_all add: fl_dot_NaN)
  then show ?thesis
    using ne by (simp add: get_lr_params_nonempty OLS_fit_params_def split_beta)
qed

lemma get_lr_params_single: "get_lr_params [Num y] = Inr (Num y, Num 0)"
  by (simp add: get_lr_params_def add_constant_def arange_def OLS_fit_params_def pinv_def
        fl_dot_def)

text \<open>
  C4, as stated, fails: \<open>get_lr_params\<close> validates nothing. One observation gives
  the pair \<open>(5, 0)\<close>, the minimum-norm solution, and a series with a NaN gives the pair
  \<open>(NaN, NaN)\<close>; neither call raises.
\<close>

theorem get_lr_params_unvalidated_counterexample:
  "length [Num 5] < 2 \<and> get_lr_params [Num 5] = Inr (Num 5, Num 0) \<and>
   NaN \<in> set [Num 1, NaN] \<and> get_lr_params [Num 1, NaN] = Inr (NaN, NaN)"
  using get_lr_params_single [of 5] get_lr_params_NaN [of "[Num 1, NaN]"] by simp

text \<open>
  C4, amended. \<open>get_lr_params\<close> raises only on the empty series (ValueError, from
  \<^verbatim>\<open>add_constant\<close>). On every non-empty series it returns a pair: \<open>(y, 0)\<close> for the
  single finite observation \<open>y\<close>, and \<open>(NaN, NaN)\<close> whenever the series contains NaN.
\<close>

theorem get_lr_params_unvalidated:
  "get_lr_params [] = Inl ValueError \<and>
   get_lr_params [Num y] = Inr (Num y, Num 0) \<and>
   (ts \<noteq> [] \<longrightarrow> (\<exists>alpha beta. get_lr_params ts = Inr (alpha, beta))) \<and>
   (NaN \<in> set ts \<longrightarrow> get_lr_params ts = Inr (NaN, NaN))"
proof -
  have "get_lr_params [] = Inl ValueError"
    by (simp add: get_lr_params_def add_constant_def arange_def)
  moreover have "ts \<noteq> [] \<longrightarrow> (\<exists>alpha beta. get_lr_params ts = Inr (alpha, beta))"
    by (metis get_lr_params_nonempty surj_pair)
  ultimately show ?thesis
    using get_lr_params_single get_lr_params_NaN by blast
qed

theorem get_lr_params_unvalidated_witness:
  "get_lr_params [] = Inl ValueError \<and>
   get_lr_params [Num 7] = Inr (Num 7, Num 0) \<and>
   [Num 2, NaN, Num 4] \<noteq> [] \<and>
   (\<exists>alpha beta. get_lr_params [Num 2, NaN, Num 4] = Inr (alpha, beta)) \<and>
   NaN \<in> set [Num 2, NaN, Num 4] \<and>
   get_lr_params [Num 2, NaN, Num 4] = Inr (NaN, NaN)"
  using get_lr_params_unvalidated [of 7 "[Num 2, NaN, Num 4]"] by simp

subsection \<open>Loops over the store\<close>

text \<open>
  Two rules for a \<^verbatim>\<open>for\<close> loop. An invariant that every body that returns keeps is
  kept by every loop that returns. When each body returns under the invariant, keeps it,
  keeps what was established and establishes its own share, the loop returns with
  every share established.
\<close>

lemma for_each_preserves:
  assumes "I h"
    and "\<And>x g g'. x \<in> set xs \<Longrightarrow> I g \<Longrightarrow> body x g = Inr g' \<Longrightarrow> I g'"
    and "for_each body xs h = Inr h'"
  shows "I h'"
  using assms
proof (induction xs arbitrary: h)
  case Nil
  then show ?case by simp
next
  case (Cons x xs)
  from Cons.prems(3) obtain g where g: "body x h = Inr g" and rest: "for_each body xs g = Inr h'"
    by (auto split: sum.splits)
  have "I g" using Cons.prems(2) [of x h g] Cons.prems(1) g by simp
  moreover have "I k'" if "y \<in> set xs" "I k" "body y k = Inr k'" for y k k'
    using Cons.prems(2) [of y k k'] that by simp
  ultimately show ?case using Cons.IH [of g] rest by blast
qed

lemma for_each_establishes:
  assumes "I h"
    and "\<And>x g. x \<in> set xs \<Longrightarrow> I g \<Longrightarrow>
           \<exists>g'. body x g = Inr g' \<and> I g' \<and> (\<forall>t. P t g \<longrightarrow> P t g') \<and> (\<forall>t\<in>G x. P t g')"
  shows "\<exists>h'. for_each body xs h = Inr h' \<and> I h' \<and> (\<forall>t. P t h \<longrightarrow> P t h') \<and>
              (\<forall>x\<in>set xs. \<forall>t\<in>G x. P t h')"
  using assms
proof (induction xs arbitrary: h)
  case Nil
  then show ?case by simp
next
  case (Cons x xs)
  from Cons.prems(2) [of x h] Cons.prems(1) obtain g where
    g: "body x h = Inr g" and Ig: "I g" and keep: "\<forall>t. P t h \<longrightarrow> P t g" and new: "\<forall>t\<in>G x. P t g"
    by auto
  have step: "\<And>y g. y \<in> set xs \<Longrightarrow> I g \<Longrightarrow>
           \<exists>g'. body y g = Inr g' \<and> I g' \<and> (\<forall>t. P t g \<longrightarrow> P t g') \<and> (\<forall>t\<in>G y. P t g')"
    using Cons.prems(2) by simp
  from Cons.IH [OF Ig step] obtain h' where
    r: "for_each body xs g = Inr h'" and Ih: "I h'" and keep': "\<forall>t. P t g \<longrightarrow> P t h'"
    and new': "\<forall>y\<in>set xs. \<forall>t\<in>G y. P t h'"
    by blast
  have "for_each body (x # xs) h = Inr h'" using g r by simp
  moreover have "\<forall>t. P t h \<longrightarrow> P t h'" using keep keep' by blast
  moreover have "\<forall>y\<in>set (x # xs). \<forall>t\<in>G y. P t h'" using new keep' new' by auto
  ultimately show ?case using Ih by blast
qed

subsection \<open>What the fitter and the forecaster write\<close>

text \<open>
  A write changes one buffer and leaves the length of the store alone, so
  \<open>fit_one\<close> changes the two parameter buffers only and \<open>forecast_one\<close> the
  prediction buffer only.
\<close>

lemma loc_set_frame:
  assumes "loc_set a k v h = Inr h'"
  shows "length h' = length h \<and> (\<forall>b. b \<noteq> a \<longrightarrow> h' ! b = h ! b)"
  using assms by (auto simp: loc_set_def split: option.splits)

lemma loc_assign_frame:
  assumes "loc_assign a ks vs h = Inr h'"
  shows "length h' = length h \<and> (\<forall>b. b \<noteq> a \<longrightarrow> h' ! b = h ! b)"
  using assms by (auto simp: loc_assign_def Let_def split: if_splits)

lemma fit_one_frame:
  assumes "fit_one da ds s a l h = Inr h'"
  shows "length h' = length h \<and> (\<forall>b. b \<noteq> ds_alpha ds \<and> b \<noteq> ds_beta ds \<longrightarrow> h' ! b = h ! b)"
proof -
  from assms obtain al be h1 where
    1: "loc_set (ds_alpha ds) [s, a, l] al h = Inr h1" and
    2: "loc_set (ds_beta ds) [s, a, l] be h1 = Inr h'"
    by (auto simp: fit_one_def split: sum.splits prod.splits)
  show ?thesis using loc_set_frame [OF 1] loc_set_frame [OF 2] by simp
qed

lemma forecast_one_frame:
  assumes "forecast_one params pred yrs decay s a l h = Inr h'"
  shows "length h' = length h \<and> (\<forall>b. b \<noteq> da_data pred \<longrightarrow> h' ! b = h ! b)"
proof -
  from assms obtain ks vs where "loc_assign (da_data pred) ks vs h = Inr h'"
    by (auto simp: forecast_one_def split: sum.splits)
  then show ?thesis by (rule loc_assign_frame)
qed

text \<open>
  A call of \<open>get_all_lr_params\<close> that returns has allocated three buffers after the
  store it was given and has changed nothing below them; the collection it returns
  carries the labels of the input and refers to the last two.
\<close>

lemma get_all_lr_params_frame:
  assumes "get_all_lr_params da h = Inr (ds, h')"
  shows "length h' = length h + 3 \<and> (\<forall>a<length h. h' ! a = h ! a) \<and>
         ds_alpha ds = length h + 1 \<and> ds_beta ds = length h + 2 \<and>
         ds_sex_id ds = da_sex_id da \<and> ds_age_group_id ds = da_age_group_id da \<and>
         ds_location_id ds = da_location_id da"
proof -
  define Bnan where "Bnan = sel_year_times_nan (h ! da_data da)
                              (fold min (tl (da_year_id da)) (hd (da_year_id da)))"
  define h3 where "h3 = h @ [Bnan, Bnan, Bnan]"
  define pds where "pds = \<lparr>ds_sex_id = da_sex_id da, ds_age_group_id = da_age_group_id da,
                            ds_location_id = da_location_id da,
                            ds_alpha = length h + 1, ds_beta = length h + 2\<rparr>"
  have run: "for_each (\<lambda>sex_id. for_each (\<lambda>age_group_id. for_each (\<lambda>location_id.
               fit_one da pds sex_id age_group_id location_id) (da_location_id da))
               (da_age_group_id da)) (da_sex_id da) h3 = Inr h'" and ds: "ds = pds"
    using assms
    by (auto simp: get_all_lr_params_def alloc_def Let_def nth_append Bnan_def h3_def pds_def
             split: if_splits sum.splits)
  define F where "F = (\<lambda>g. length g = length h + 3 \<and> (\<forall>a<length h. g ! a = h ! a))"
  have F3: "F h3" by (simp add: F_def h3_def nth_append)
  have one: "F g'" if "F g" "fit_one da pds s a l g = Inr g'" for s a l g g'
    using fit_one_frame [OF that(2)] that(1) by (simp add: F_def pds_def)
  have inner: "F g'" if "F g" "for_each (fit_one da pds s a) ls g = Inr g'" for s a ls g g'
    using for_each_preserves [of F g ls "fit_one da pds s a" g'] that one by blast
  have middle: "F g'"
    if "F g" "for_each (\<lambda>a. for_each (fit_one da pds s a) ls) as g = Inr g'" for s as ls g g'
    using for_each_preserves [of F g as "\<lambda>a. for_each (fit_one da pds s a) ls" g'] that inner
    by blast
  have "F h'"
    using for_each_preserves [of F h3 "da_sex_id da"
            "\<lambda>s. for_each (\<lambda>a. for_each (fit_one da pds s a) (da_location_id da)) (da_age_group_id da)" h']
          F3 middle run by blast
  then show ?thesis using ds by (simp add: F_def pds_def)
qed


text \<open>The forecaster allocates two more buffers and returns an array on the last.\<close>

lemma get_decayed_drift_preds_frame:
  assumes "get_decayed_drift_preds eps_da yrs decay h = Inr (pred, h')"
  shows "length h' = length h + 5 \<and> (\<forall>a<length h. h' ! a = h ! a) \<and>
         da_data pred = length h + 4 \<and> da_year_id pred = years yrs \<and>
         da_sex_id pred = da_sex_id eps_da \<and> da_age_group_id pred = da_age_group_id eps_da \<and>
         da_location_id pred = da_location_id eps_da"
proof -
  from assms obtain params h1 where
    p: "get_all_lr_params eps_da h = Inr (params, h1)"
    by (auto simp: get_decayed_drift_preds_def split: sum.splits)
  note fr = get_all_lr_params_frame [OF p]
  define yb where "yb = ones_over (years yrs)"
  define pb where "pb = broadcast_times_nan ((h1 @ [yb]) ! ds_alpha params) yb"
  define h3 where "h3 = h1 @ [yb, pb]"
  define pd where "pd = \<lparr>da_year_id = years yrs, da_sex_id = ds_sex_id params,
                          da_age_group_id = ds_age_group_id params,
                          da_location_id = ds_location_id params,
                          da_data = length h1 + 1\<rparr>"
  have run: "for_each (\<lambda>sex_id. for_each (\<lambda>age_group_id. for_each (\<lambda>location_id.
               forecast_one params pd yrs decay sex_id age_group_id location_id)
               (da_location_id pd)) (da_age_group_id pd)) (da_sex_id pd) h3 = Inr h'"
    and pred: "pred = pd"
    using assms p
    by (auto simp: get_decayed_drift_preds_def alloc_def Let_def yb_def pb_def h3_def pd_def
             split: sum.splits)
  define F where "F = (\<lambda>g. length g = length h3 \<and> (\<forall>a. a \<noteq> length h1 + 1 \<longrightarrow> g ! a = h3 ! a))"
  have F3: "F h3" by (simp add: F_def)
  have one: "F g'" if "F g" "forecast_one params pd yrs decay s a l g = Inr g'" for s a l g g'
    using forecast_one_frame [OF that(2)] that(1) by (simp add: F_def pd_def)
  have inner: "F g'"
    if "F g" "for_each (forecast_one params pd yrs decay s a) ls g = Inr g'" for s a ls g g'
    using for_each_preserves [of F g ls "forecast_one params pd yrs decay s a" g'] that one
    by blast
  have middle: "F g'"
    if "F g" "for_each (\<lambda>a. for_each (forecast_one params pd yrs decay s a) ls) as g = Inr g'"
    for s as ls g g'
    using for_each_preserves [of F g as "\<lambda>a. for_each (forecast_one params pd yrs decay s a) ls" g']
          that inner by blast
  have "F h'"
    using for_each_preserves [of F h3 "da_sex_id pd"
            "\<lambda>s. for_each (\<lambda>a. for_each (forecast_one params pd yrs decay s a) (da_location_id pd))
                   (da_age_group_id pd)" h']
          F3 middle run by blast
  then have len: "length h' = length h1 + 2" and same: "\<forall>a<length h1. h' ! a = h1 ! a"
    by (simp_all add: F_def h3_def nth_append)
  have "\<forall>a<length h. h' ! a = h ! a" using same fr by simp
  then show ?thesis using len fr pred by (simp add: pd_def)
qed


subsection \<open>The grid fitter returns, and what it returns\<close>

lemma set_keys3:
  "set (keys3 ss as ls) = {[s, a, l] | s a l. s \<in> set ss \<and> a \<in> set as \<and> l \<in> set ls}"
  by (auto simp: keys3_def)

lemma set_keys4:
  "set (keys4 da) =
     {y # k | y k. y \<in> set (da_year_id da) \<and>
                   k \<in> set (keys3 (da_sex_id da) (da_age_group_id da) (da_location_id da))}"
  by (auto simp: keys4_def)

lemma fold_min_in: "ys \<noteq> [] \<Longrightarrow> fold min (tl ys) (hd ys) \<in> set (ys :: int list)"
proof -
  assume "ys \<noteq> []"
  then obtain x xs where ys: "ys = x # xs" by (cases ys) auto
  have "fold min xs x \<in> set (x # xs)"
    unfolding Min.set_eq_fold [symmetric] by (rule Min_in) simp_all
  then show ?thesis by (simp add: ys)
qed

lemma dom_sel_year_times_nan:
  assumes "dom b = set (keys4 da)" and "y \<in> set (da_year_id da)"
  shows "dom (sel_year_times_nan b y) =
         set (keys3 (da_sex_id da) (da_age_group_id da) (da_location_id da))"
proof -
  have "dom (sel_year_times_nan b y) = {k. y # k \<in> dom b}"
    by (auto simp: sel_year_times_nan_def dom_def split: option.splits)
  also have "\<dots> = set (keys3 (da_sex_id da) (da_age_group_id da) (da_location_id da))"
    using assms by (auto simp: set_keys4)
  finally show ?thesis .
qed

lemma read_cells_total:
  "set ks \<subseteq> dom b \<Longrightarrow> \<exists>vs. read_cells b ks = Inr vs \<and> length vs = length ks"
  by (induction ks) auto

text \<open>
  On a well-formed array with at least one year the grid fitter returns. Both parameter
  buffers have one cell for each combination of labels, and the cell of a combination
  holds what \<open>get_lr_params\<close> returns on the series of that combination, read from
  the input in the order of its years.
\<close>

lemma get_all_lr_params_total:
  assumes wf: "wf_da da h" and ne: "da_year_id da \<noteq> []"
  shows "\<exists>ds h'. get_all_lr_params da h = Inr (ds, h') \<and>
           dom (h' ! ds_alpha ds) = set (keys3 (da_sex_id da) (da_age_group_id da) (da_location_id da)) \<and>
           dom (h' ! ds_beta ds) = set (keys3 (da_sex_id da) (da_age_group_id da) (da_location_id da)) \<and>
           (\<forall>s\<in>set (da_sex_id da). \<forall>a\<in>set (da_age_group_id da). \<forall>l\<in>set (da_location_id da).
              \<exists>ts al be.
                read_cells (h ! da_data da) (map (\<lambda>y. [y, s, a, l]) (da_year_id da)) = Inr ts \<and>
                get_lr_params ts = Inr (al, be) \<and>
                (h' ! ds_alpha ds) [s, a, l] = Some al \<and>
                (h' ! ds_beta ds) [s, a, l] = Some be)"
proof -
  define n where "n = length h"
  define B where "B = h ! da_data da"
  define K where "K = set (keys3 (da_sex_id da) (da_age_group_id da) (da_location_id da))"
  define ymin where "ymin = fold min (tl (da_year_id da)) (hd (da_year_id da))"
  define Bnan where "Bnan = sel_year_times_nan B ymin"
  define h3 where "h3 = h @ [Bnan, Bnan, Bnan]"
  define pds where "pds = \<lparr>ds_sex_id = da_sex_id da, ds_age_group_id = da_age_group_id da,
                            ds_location_id = da_location_id da,
                            ds_alpha = n + 1, ds_beta = n + 2\<rparr>"
  have addr: "da_data da < n" and domB: "dom B = set (keys4 da)"
    using wf by (simp_all add: wf_da_def n_def B_def)
  have ymin: "ymin \<in> set (da_year_id da)" unfolding ymin_def by (rule fold_min_in [OF ne])
  have domN: "dom Bnan = K"
    unfolding Bnan_def K_def by (rule dom_sel_year_times_nan [OF domB ymin])
  define J where "J = (\<lambda>g. length g = n + 3 \<and> g ! da_data da = B \<and>
                          dom (g ! (n + 1)) = K \<and> dom (g ! (n + 2)) = K)"
  define P where "P = (\<lambda>(s, a, l) g. \<exists>ts al be.
                          read_cells B (map (\<lambda>y. [y, s, a, l]) (da_year_id da)) = Inr ts \<and>
                          get_lr_params ts = Inr (al, be) \<and>
                          (g ! (n + 1)) [s, a, l] = Some al \<and> (g ! (n + 2)) [s, a, l] = Some be)"
  have J3: "J h3"
    using addr domN by (simp add: J_def h3_def nth_append n_def B_def)
  have one: "\<exists>g'. fit_one da pds s a l g = Inr g' \<and> J g' \<and> (\<forall>t. P t g \<longrightarrow> P t g') \<and>
                  (\<forall>t\<in>{(s, a, l)}. P t g')"
    if s: "s \<in> set (da_sex_id da)" and a: "a \<in> set (da_age_group_id da)"
      and l: "l \<in> set (da_location_id da)" and J: "J g" for s a l g
  proof -
    have kK: "[s, a, l] \<in> K" using s a l by (auto simp: K_def set_keys3)
    have "set (map (\<lambda>y. [y, s, a, l]) (da_year_id da)) \<subseteq> dom B"
      using kK by (auto simp: domB set_keys4 K_def)
    from read_cells_total [OF this] obtain ts where
      ts: "read_cells B (map (\<lambda>y. [y, s, a, l]) (da_year_id da)) = Inr ts"
      and lts: "length ts = length (da_year_id da)" by auto
    have "ts \<noteq> []" using lts ne by auto
    then obtain al be where fit: "get_lr_params ts = Inr (al, be)"
      by (metis get_lr_params_nonempty surj_pair)
    from J have len: "length g = n + 3" and gB: "g ! da_data da = B"
      and dA: "dom (g ! (n + 1)) = K" and dB: "dom (g ! (n + 2)) = K"
      by (simp_all add: J_def)
    obtain va where va: "(g ! (n + 1)) [s, a, l] = Some va" using dA kK by auto
    obtain vb where vb: "(g ! (n + 2)) [s, a, l] = Some vb" using dB kK by auto
    define g1 where "g1 = g[n + 1 := (g ! (n + 1))([s, a, l] \<mapsto> al)]"
    define g2 where "g2 = g1[n + 2 := (g1 ! (n + 2))([s, a, l] \<mapsto> be)]"
    have s1: "loc_set (n + 1) [s, a, l] al g = Inr g1"
      using va by (simp add: loc_set_def g1_def)
    have g1b: "g1 ! (n + 2) = g ! (n + 2)" by (simp add: g1_def)
    have s2: "loc_set (n + 2) [s, a, l] be g1 = Inr g2"
      using vb g1b by (simp add: loc_set_def g2_def)
    have run: "fit_one da pds s a l g = Inr g2"
      using ts fit s1 s2 gB by (simp add: fit_one_def pds_def)
    have A2: "g2 ! (n + 1) = (g ! (n + 1))([s, a, l] \<mapsto> al)"
      using len by (simp add: g2_def g1_def)
    have B2: "g2 ! (n + 2) = (g ! (n + 2))([s, a, l] \<mapsto> be)"
      using len by (simp add: g2_def g1_def)
    have D2: "g2 ! da_data da = B" using addr gB by (simp add: g2_def g1_def)
    have J2: "J g2"
      using len A2 B2 D2 dA dB kK by (auto simp: J_def g2_def g1_def)
    have new: "P (s, a, l) g2" using ts fit A2 B2 by (simp add: P_def)
    have keep: "P t g2" if "P t g" for t
    proof -
      obtain s' a' l' where t: "t = (s', a', l')" by (cases t) auto
      show ?thesis
      proof (cases "[s', a', l'] = [s, a, l]")
        case True
        then show ?thesis using new t by simp
      next
        case False
        from that t obtain ts' al' be' where
          r: "read_cells B (map (\<lambda>y. [y, s', a', l']) (da_year_id da)) = Inr ts'"
          and f: "get_lr_params ts' = Inr (al', be')"
          and ca: "(g ! (n + 1)) [s', a', l'] = Some al'"
          and cb: "(g ! (n + 2)) [s', a', l'] = Some be'"
          by (auto simp: P_def)
        have "(g2 ! (n + 1)) [s', a', l'] = Some al'"
          by (metis False ca A2 fun_upd_other)
        moreover have "(g2 ! (n + 2)) [s', a', l'] = Some be'"
          by (metis False cb B2 fun_upd_other)
        ultimately have "P (s', a', l') g2" using r f unfolding P_def by blast
        then show ?thesis using t by simp
      qed
    qed
    show ?thesis using run J2 new keep by blast
  qed
  have inner: "\<exists>g'. for_each (fit_one da pds s a) (da_location_id da) g = Inr g' \<and> J g' \<and>
                    (\<forall>t. P t g \<longrightarrow> P t g') \<and>
                    (\<forall>t\<in>{(s, a, l) | l. l \<in> set (da_location_id da)}. P t g')"
    if s: "s \<in> set (da_sex_id da)" and a: "a \<in> set (da_age_group_id da)" and J: "J g" for s a g
  proof -
    from for_each_establishes [of J g "da_location_id da" "fit_one da pds s a" P "\<lambda>l. {(s, a, l)}",
          OF J one [OF s a]]
    show ?thesis by auto
  qed
  have middle: "\<exists>g'. for_each (\<lambda>a. for_each (fit_one da pds s a) (da_location_id da))
                         (da_age_group_id da) g = Inr g' \<and> J g' \<and>
                    (\<forall>t. P t g \<longrightarrow> P t g') \<and>
                    (\<forall>t\<in>{(s, a, l) | a l. a \<in> set (da_age_group_id da) \<and>
                                            l \<in> set (da_location_id da)}. P t g')"
    if s: "s \<in> set (da_sex_id da)" and J: "J g" for s g
  proof -
    from for_each_establishes [of J g "da_age_group_id da"
          "\<lambda>a. for_each (fit_one da pds s a) (da_location_id da)" P
          "\<lambda>a. {(s, a, l) | l. l \<in> set (da_location_id da)}", OF J inner [OF s]]
    show ?thesis by auto
  qed
  from for_each_establishes [of J h3 "da_sex_id da"
        "\<lambda>s. for_each (\<lambda>a. for_each (fit_one da pds s a) (da_location_id da)) (da_age_group_id da)"
        P "\<lambda>s. {(s, a, l) | a l. a \<in> set (da_age_group_id da) \<and> l \<in> set (da_location_id da)}",
        OF J3 middle]
  obtain h4 where
    run: "for_each (\<lambda>s. for_each (\<lambda>a. for_each (fit_one da pds s a) (da_location_id da))
            (da_age_group_id da)) (da_sex_id da) h3 = Inr h4"
    and J4: "J h4"
    and all: "\<forall>s\<in>set (da_sex_id da). \<forall>t\<in>{(s, a, l) | a l. a \<in> set (da_age_group_id da) \<and>
                 l \<in> set (da_location_id da)}. P t h4"
    by auto
  have res: "get_all_lr_params da h = Inr (pds, h4)"
    using ne run
    by (simp add: get_all_lr_params_def alloc_def Let_def nth_append h3_def pds_def Bnan_def
          B_def ymin_def n_def)
  have cells: "\<forall>s\<in>set (da_sex_id da). \<forall>a\<in>set (da_age_group_id da). \<forall>l\<in>set (da_location_id da).
                 P (s, a, l) h4"
    using all by blast
  show ?thesis
    using res J4 cells by (intro exI [of _ pds] exI [of _ h4]) (simp add: J_def P_def pds_def K_def B_def)
qed


subsection \<open>The forecaster returns\<close>

lemma length_forecast_loop:
  "length (fst (forecast_loop beta decay js (preds, lastv))) = length preds + length js"
  by (induction js arbitrary: preds lastv) (simp_all add: Let_def)

lemma make_single_predictions_total:
  assumes "past_years yrs \<noteq> []"
  shows "\<exists>preds. make_single_predictions alpha beta yrs decay = Inr preds \<and>
                 length preds = length (years yrs)"
  using assms
  by (simp add: make_single_predictions_def Let_def arange_def length_forecast_loop years_def)

lemma dom_broadcast_times_nan:
  "dom (broadcast_times_nan p (ones_over ys)) = {y # k | y k. y \<in> set ys \<and> k \<in> dom p}"
proof (rule set_eqI)
  fix k
  show "k \<in> dom (broadcast_times_nan p (ones_over ys)) \<longleftrightarrow>
        k \<in> {y # k | y k. y \<in> set ys \<and> k \<in> dom p}"
  proof (cases k)
    case Nil
    then show ?thesis by (simp add: broadcast_times_nan_def dom_def)
  next
    case (Cons y k3)
    then show ?thesis
      by (cases "p k3") (auto simp: broadcast_times_nan_def ones_over_def dom_def)
  qed
qed

lemma loc_assign_total:
  assumes "set ks \<subseteq> dom (h ! a)" and "length vs = length ks" and "a < length h"
  shows "\<exists>h'. loc_assign a ks vs h = Inr h' \<and> length h' = length h \<and>
              dom (h' ! a) = dom (h ! a) \<and> (\<forall>b. b \<noteq> a \<longrightarrow> h' ! b = h ! b)"
proof -
  have vs': "(if length vs = 1 then replicate (length ks) (hd vs) else vs) = vs"
  proof (cases "length vs = 1")
    case True
    then obtain v where v: "vs = [v]" by (cases vs) auto
    have lk: "length ks = Suc 0" using assms(2) v by simp
    show ?thesis by (simp add: v lk)
  next
    case False
    then show ?thesis by simp
  qed
  have nk: "\<not> list_ex (\<lambda>k. (h ! a) k = None) ks"
    using assms(1) by (auto simp: list_ex_iff)
  have run: "loc_assign a ks vs h = Inr (h[a := (h ! a) ++ map_of (zip ks vs)])"
    unfolding loc_assign_def Let_def vs' using nk assms(2) by simp
  have "dom ((h ! a) ++ map_of (zip ks vs)) = dom (h ! a)"
    using assms(1,2) by auto
  then show ?thesis using run assms(3) by simp
qed

text \<open>
  On a well-formed array with at least one year the forecaster returns, provided there
  is a past year or no combination at all; the buffer of the result has one cell for
  each year of the year range and each combination.
\<close>

lemma get_decayed_drift_preds_total:
  assumes wf: "wf_da da h" and ne: "da_year_id da \<noteq> []"
    and py: "past_years yrs \<noteq> [] \<or>
             keys3 (da_sex_id da) (da_age_group_id da) (da_location_id da) = []"
  shows "\<exists>pred h'. get_decayed_drift_preds da yrs decay h = Inr (pred, h') \<and>
           da_data pred < length h' \<and>
           dom (h' ! da_data pred) = set (keys4 pred)"
proof -
  define K where "K = set (keys3 (da_sex_id da) (da_age_group_id da) (da_location_id da))"
  from get_all_lr_params_total [OF wf ne] obtain params h1 where
    p: "get_all_lr_params da h = Inr (params, h1)"
    and dA: "dom (h1 ! ds_alpha params) = K" and dB: "dom (h1 ! ds_beta params) = K"
    unfolding K_def by blast
  note fr = get_all_lr_params_frame [OF p]
  define n where "n = length h1"
  have aa: "ds_alpha params < n" and ab: "ds_beta params < n"
    using fr by (simp_all add: n_def)
  define yb where "yb = ones_over (years yrs)"
  define pb where "pb = broadcast_times_nan (h1 ! ds_alpha params) yb"
  define h3 where "h3 = h1 @ [yb, pb]"
  define pd where "pd = \<lparr>da_year_id = years yrs, da_sex_id = ds_sex_id params,
                          da_age_group_id = ds_age_group_id params,
                          da_location_id = ds_location_id params,
                          da_data = n + 1\<rparr>"
  have cs: "da_sex_id pd = da_sex_id da" "da_age_group_id pd = da_age_group_id da"
    "da_location_id pd = da_location_id da" "da_year_id pd = years yrs"
    using fr by (simp_all add: pd_def)
  have k4: "set (keys4 pd) = {y # k | y k. y \<in> set (years yrs) \<and> k \<in> K}"
    by (simp add: set_keys4 cs K_def)
  have dpb: "dom pb = set (keys4 pd)"
    unfolding pb_def yb_def by (simp add: dom_broadcast_times_nan dA k4)
  define J where "J = (\<lambda>g. length g = n + 2 \<and> g ! ds_alpha params = h1 ! ds_alpha params \<and>
                          g ! ds_beta params = h1 ! ds_beta params \<and>
                          dom (g ! (n + 1)) = set (keys4 pd))"
  have J3: "J h3" using aa ab dpb by (simp add: J_def h3_def nth_append n_def)
  have one: "\<exists>g'. forecast_one params pd yrs decay s a l g = Inr g' \<and> J g' \<and>
                  (\<forall>t::unit. False \<longrightarrow> False) \<and> (\<forall>t\<in>{}::unit set. False)"
    if s: "s \<in> set (da_sex_id pd)" and a: "a \<in> set (da_age_group_id pd)"
      and l: "l \<in> set (da_location_id pd)" and J: "J g" for s a l g
  proof -
    have kK: "[s, a, l] \<in> K" using s a l by (auto simp: K_def set_keys3 cs)
    then have "keys3 (da_sex_id da) (da_age_group_id da) (da_location_id da) \<noteq> []"
      by (auto simp: K_def)
    with py have past: "past_years yrs \<noteq> []" by blast
    from J have len: "length g = n + 2" and gA: "g ! ds_alpha params = h1 ! ds_alpha params"
      and gB: "g ! ds_beta params = h1 ! ds_beta params"
      and dP: "dom (g ! (n + 1)) = set (keys4 pd)"
      by (simp_all add: J_def)
    obtain al where al: "(g ! ds_alpha params) [s, a, l] = Some al" using gA dA kK by auto
    obtain be where be: "(g ! ds_beta params) [s, a, l] = Some be" using gB dB kK by auto
    from make_single_predictions_total [OF past, of al be decay] obtain preds where
      m: "make_single_predictions al be yrs decay = Inr preds"
      and lp: "length preds = length (years yrs)" by blast
    let ?ks = "map (\<lambda>y. [y, s, a, l]) (da_year_id pd)"
    have "set ?ks \<subseteq> set (keys4 pd)" using kK by (auto simp: k4 cs)
    then have sub: "set ?ks \<subseteq> dom (g ! (n + 1))" by (simp only: dP)
    have lk: "length preds = length ?ks" using lp by (simp add: cs)
    have "n + 1 < length g" using len by simp
    from loc_assign_total [OF sub lk this] obtain g' where
      w: "loc_assign (n + 1) ?ks preds g = Inr g'" and len': "length g' = length g"
      and dom': "dom (g' ! (n + 1)) = dom (g ! (n + 1))"
      and oth: "\<forall>b. b \<noteq> n + 1 \<longrightarrow> g' ! b = g ! b"
      by blast
    have run: "forecast_one params pd yrs decay s a l g = Inr g'"
      using al be m w by (simp add: forecast_one_def loc_get_def pd_def)
    have "J g'" using len len' dom' oth aa ab gA gB dP by (simp add: J_def)
    then show ?thesis using run by blast
  qed
  have inner: "\<exists>g'. for_each (forecast_one params pd yrs decay s a) (da_location_id pd) g = Inr g' \<and>
                    J g' \<and> (\<forall>t::unit. False \<longrightarrow> False) \<and> (\<forall>t\<in>{}::unit set. False)"
    if s: "s \<in> set (da_sex_id pd)" and a: "a \<in> set (da_age_group_id pd)" and J: "J g" for s a g
  proof -
    from for_each_establishes [of J g "da_location_id pd" "forecast_one params pd yrs decay s a"
          "\<lambda>(t::unit) g. False" "\<lambda>l. {}", OF J one [OF s a]]
    show ?thesis by auto
  qed
  have middle: "\<exists>g'. for_each (\<lambda>a. for_each (forecast_one params pd yrs decay s a)
                         (da_location_id pd)) (da_age_group_id pd) g = Inr g' \<and>
                    J g' \<and> (\<forall>t::unit. False \<longrightarrow> False) \<and> (\<forall>t\<in>{}::unit set. False)"
    if s: "s \<in> set (da_sex_id pd)" and J: "J g" for s g
  proof -
    from for_each_establishes [of J g "da_age_group_id pd"
          "\<lambda>a. for_each (forecast_one params pd yrs decay s a) (da_location_id pd)"
          "\<lambda>(t::unit) g. False" "\<lambda>a. {}", OF J inner [OF s]]
    show ?thesis by auto
  qed
  from for_each_establishes [of J h3 "da_sex_id pd"
        "\<lambda>s. for_each (\<lambda>a. for_each (forecast_one params pd yrs decay s a) (da_location_id pd))
               (da_age_group_id pd)"
        "\<lambda>(t::unit) g. False" "\<lambda>s. {}", OF J3 middle]
  obtain h4 where
    run: "for_each (\<lambda>s. for_each (\<lambda>a. for_each (forecast_one params pd yrs decay s a)
            (da_location_id pd)) (da_age_group_id pd)) (da_sex_id pd) h3 = Inr h4"
    and J4: "J h4"
    by auto
  have res: "get_decayed_drift_preds da yrs decay h = Inr (pd, h4)"
    using p run aa
    by (simp add: get_decayed_drift_preds_def alloc_def Let_def nth_append h3_def pd_def
          pb_def yb_def n_def)
  show ?thesis
    using res J4 by (intro exI [of _ pd] exI [of _ h4]) (simp add: J_def pd_def)
qed

subsection \<open>The grid fitter and the forecaster on arrays\<close>

text \<open>The example arrays are well-formed in their stores.\<close>

lemma wf_example: "wf_da example_da example_heap"
  by (auto simp: wf_da_def example_da_def example_heap_def keys4_def keys3_def)

lemma wf_no_sex: "wf_da no_sex_da empty_heap"
  by (simp add: wf_da_def no_sex_da_def empty_heap_def keys4_def keys3_def)

lemma wf_empty: "wf_da empty_da empty_heap"
  by (simp add: wf_da_def empty_da_def empty_heap_def keys4_def keys3_def)


text \<open>
  A call that raises leaves the store as it was below the buffers the call allocated:
  the loop rule for a loop that raises, and the writes done before the error.
\<close>

lemma for_each_preserves_err:
  assumes "I h"
    and "\<And>x g g'. x \<in> set xs \<Longrightarrow> I g \<Longrightarrow> body x g = Inr g' \<Longrightarrow> I g'"
    and "\<And>x g e g'. x \<in> set xs \<Longrightarrow> I g \<Longrightarrow> body x g = Inl (e, g') \<Longrightarrow> I g'"
    and "for_each body xs h = Inl (e, h')"
  shows "I h'"
  using assms
proof (induction xs arbitrary: h)
  case Nil
  then show ?case by simp
next
  case (Cons x xs)
  show ?case
  proof (cases "body x h")
    case (Inl p)
    then have "body x h = Inl (e, h')" using Cons.prems(4) by simp
    then show ?thesis using Cons.prems(3) [of x h e h'] Cons.prems(1) by simp
  next
    case (Inr g)
    then have rest: "for_each body xs g = Inl (e, h')" using Cons.prems(4) by simp
    have Ig: "I g" using Cons.prems(2) [of x h g] Cons.prems(1) Inr by simp
    have ok: "I k'" if "y \<in> set xs" "I k" "body y k = Inr k'" for y k k'
      using Cons.prems(2) [of y k k'] that by simp
    have er: "I k'" if "y \<in> set xs" "I k" "body y k = Inl (e', k')" for y k e' k'
      using Cons.prems(3) [of y k e' k'] that by simp
    show ?thesis using Cons.IH [of g, OF Ig] ok er rest by blast
  qed
qed

lemma loc_set_err: "loc_set a k v h = Inl (e, h') \<Longrightarrow> h' = h"
  by (auto simp: loc_set_def split: option.splits)

lemma loc_assign_err: "loc_assign a ks vs h = Inl (e, h') \<Longrightarrow> h' = h"
  by (auto simp: loc_assign_def Let_def split: if_splits)

lemma loc_get_err: "loc_get a k h = Inl (e, h') \<Longrightarrow> h' = h"
  by (auto simp: loc_get_def split: option.splits)

lemma fit_one_err:
  assumes "fit_one da ds s a l h = Inl (e, h')"
  shows "length h' = length h \<and> (\<forall>b. b \<noteq> ds_alpha ds \<and> b \<noteq> ds_beta ds \<longrightarrow> h' ! b = h ! b)"
proof -
  consider "h' = h"
    | al h1 where "loc_set (ds_alpha ds) [s, a, l] al h = Inr h1" "h' = h1"
    using assms
    by (auto simp: fit_one_def split: sum.splits prod.splits dest: loc_set_err)
  then show ?thesis
  proof cases
    case 1
    then show ?thesis by simp
  next
    case 2
    then show ?thesis using loc_set_frame [OF 2(1)] by simp
  qed
qed

lemma forecast_one_err:
  assumes "forecast_one params pred yrs decay s a l h = Inl (e, h')"
  shows "h' = h"
  using assms
  by (auto simp: forecast_one_def split: sum.splits dest: loc_get_err loc_assign_err)

lemma get_all_lr_params_frame_err:
  assumes "get_all_lr_params da h = Inl (e, h')"
  shows "length h \<le> length h' \<and> (\<forall>a<length h. h' ! a = h ! a)"
proof (cases "da_year_id da = []")
  case True
  then show ?thesis using assms by (simp add: get_all_lr_params_def)
next
  case False
  define Bnan where "Bnan = sel_year_times_nan (h ! da_data da)
                              (fold min (tl (da_year_id da)) (hd (da_year_id da)))"
  define h3 where "h3 = h @ [Bnan, Bnan, Bnan]"
  define pds where "pds = \<lparr>ds_sex_id = da_sex_id da, ds_age_group_id = da_age_group_id da,
                            ds_location_id = da_location_id da,
                            ds_alpha = length h + 1, ds_beta = length h + 2\<rparr>"
  have run: "for_each (\<lambda>sex_id. for_each (\<lambda>age_group_id. for_each (\<lambda>location_id.
               fit_one da pds sex_id age_group_id location_id) (da_location_id da))
               (da_age_group_id da)) (da_sex_id da) h3 = Inl (e, h')"
    using assms False
    by (auto simp: get_all_lr_params_def alloc_def Let_def nth_append Bnan_def h3_def pds_def
             split: sum.splits)
  define F where "F = (\<lambda>g. length g = length h + 3 \<and> (\<forall>a<length h. g ! a = h ! a))"
  have F3: "F h3" by (simp add: F_def h3_def nth_append)
  have one: "F g'" if "F g" "fit_one da pds s a l g = Inr g'" for s a l g g'
    using fit_one_frame [OF that(2)] that(1) by (simp add: F_def pds_def)
  have one_e: "F g'" if "F g" "fit_one da pds s a l g = Inl (e', g')" for s a l g g' e'
    using fit_one_err [OF that(2)] that(1) by (simp add: F_def pds_def)
  have inner: "F g'" if "F g" "for_each (fit_one da pds s a) ls g = Inr g'" for s a ls g g'
    using for_each_preserves [of F g ls "fit_one da pds s a" g'] that one by blast
  have inner_e: "F g'"
    if "F g" "for_each (fit_one da pds s a) ls g = Inl (e', g')" for s a ls g g' e'
    using for_each_preserves_err [of F g ls "fit_one da pds s a" e' g'] that one one_e by blast
  have middle: "F g'"
    if "F g" "for_each (\<lambda>a. for_each (fit_one da pds s a) ls) as g = Inr g'" for s as ls g g'
    using for_each_preserves [of F g as "\<lambda>a. for_each (fit_one da pds s a) ls" g'] that inner
    by blast
  have middle_e: "F g'"
    if "F g" "for_each (\<lambda>a. for_each (fit_one da pds s a) ls) as g = Inl (e', g')"
    for s as ls g g' e'
    using for_each_preserves_err [of F g as "\<lambda>a. for_each (fit_one da pds s a) ls" e' g']
          that inner inner_e by blast
  have "F h'"
    using for_each_preserves_err [of F h3 "da_sex_id da"
            "\<lambda>s. for_each (\<lambda>a. for_each (fit_one da pds s a) (da_location_id da)) (da_age_group_id da)"
            e h']
          F3 middle middle_e run by blast
  then show ?thesis by (simp add: F_def)
qed

lemma get_decayed_drift_preds_frame_err:
  assumes "get_decayed_drift_preds eps_da yrs decay h = Inl (e, h')"
  shows "length h \<le> length h' \<and> (\<forall>a<length h. h' ! a = h ! a)"
proof (cases "get_all_lr_params eps_da h")
  case (Inl p)
  then have "get_all_lr_params eps_da h = Inl (e, h')"
    using assms by (simp add: get_decayed_drift_preds_def)
  then show ?thesis by (rule get_all_lr_params_frame_err)
next
  case (Inr q)
  then obtain params h1 where p: "get_all_lr_params eps_da h = Inr (params, h1)"
    by (cases q) auto
  note fr = get_all_lr_params_frame [OF p]
  define yb where "yb = ones_over (years yrs)"
  define pb where "pb = broadcast_times_nan ((h1 @ [yb]) ! ds_alpha params) yb"
  define h3 where "h3 = h1 @ [yb, pb]"
  define pd where "pd = \<lparr>da_year_id = years yrs, da_sex_id = ds_sex_id params,
                          da_age_group_id = ds_age_group_id params,
                          da_location_id = ds_location_id params,
                          da_data = length h1 + 1\<rparr>"
  have run: "for_each (\<lambda>sex_id. for_each (\<lambda>age_group_id. for_each (\<lambda>location_id.
               forecast_one params pd yrs decay sex_id age_group_id location_id)
               (da_location_id pd)) (da_age_group_id pd)) (da_sex_id pd) h3 = Inl (e, h')"
    using assms p
    by (auto simp: get_decayed_drift_preds_def alloc_def Let_def yb_def pb_def h3_def pd_def
             split: sum.splits)
  define F where "F = (\<lambda>g. length g = length h3 \<and> (\<forall>a. a \<noteq> length h1 + 1 \<longrightarrow> g ! a = h3 ! a))"
  have F3: "F h3" by (simp add: F_def)
  have one: "F g'" if "F g" "forecast_one params pd yrs decay s a l g = Inr g'" for s a l g g'
    using forecast_one_frame [OF that(2)] that(1) by (simp add: F_def pd_def)
  have one_e: "F g'"
    if "F g" "forecast_one params pd yrs decay s a l g = Inl (e', g')" for s a l g g' e'
    using forecast_one_err [OF that(2)] that(1) by simp
  have inner: "F g'"
    if "F g" "for_each (forecast_one params pd yrs decay s a) ls g = Inr g'" for s a ls g g'
    using for_each_preserves [of F g ls "forecast_one params pd yrs decay s a" g'] that one
    by blast
  have inner_e: "F g'"
    if "F g" "for_each (forecast_one params pd yrs decay s a) ls g = Inl (e', g')"
    for s a ls g g' e'
    using for_each_preserves_err [of F g ls "forecast_one params pd yrs decay s a" e' g']
          that one one_e by blast
  have middle: "F g'"
    if "F g" "for_each (\<lambda>a. for_each (forecast_one params pd yrs decay s a) ls) as g = Inr g'"
    for s as ls g g'
    using for_each_preserves [of F g as "\<lambda>a. for_each (forecast_one params pd yrs decay s a) ls" g']
          that inner by blast
  have middle_e: "F g'"
    if "F g" "for_each (\<lambda>a. for_each (forecast_one params pd yrs decay s a) ls) as g = Inl (e', g')"
    for s as ls g g' e'
    using for_each_preserves_err
            [of F g as "\<lambda>a. for_each (forecast_one params pd yrs decay s a) ls" e' g']
          that inner inner_e by blast
  have "F h'"
    using for_each_preserves_err [of F h3 "da_sex_id pd"
            "\<lambda>s. for_each (\<lambda>a. for_each (forecast_one params pd yrs decay s a) (da_location_id pd))
                   (da_age_group_id pd)" e h']
          F3 middle middle_e run by blast
  then have len: "length h' = length h1 + 2" and same: "\<forall>a<length h1. h' ! a = h1 ! a"
    by (simp_all add: F_def h3_def nth_append)
  have "\<forall>a<length h. h' ! a = h ! a" using same fr by simp
  then show ?thesis using len fr by simp
qed

text \<open>
  C3. On a well-formed input array with the dimensions year, sex, age group and location,
  the grid fitter returns whenever there is at least one year, and the collection it
  returns has the labels of the input on its three axes; its \<open>alpha\<close> and \<open>beta\<close>
  buffers have a cell for exactly the combinations of the Cartesian product of those
  labels, and the cells of a combination hold the pair that \<open>get_lr_params\<close> returns
  on that combination's series.
\<close>

theorem get_all_lr_params_cartesian_product:
  assumes wf: "wf_da da h"
  shows "(da_year_id da \<noteq> [] \<longrightarrow> (\<exists>ds h'. get_all_lr_params da h = Inr (ds, h'))) \<and>
         (\<forall>ds h'. get_all_lr_params da h = Inr (ds, h') \<longrightarrow>
            ds_sex_id ds = da_sex_id da \<and> ds_age_group_id ds = da_age_group_id da \<and>
            ds_location_id ds = da_location_id da \<and>
            dom (h' ! ds_alpha ds) =
              set (keys3 (da_sex_id da) (da_age_group_id da) (da_location_id da)) \<and>
            dom (h' ! ds_beta ds) =
              set (keys3 (da_sex_id da) (da_age_group_id da) (da_location_id da)) \<and>
            (\<forall>s\<in>set (da_sex_id da). \<forall>a\<in>set (da_age_group_id da). \<forall>l\<in>set (da_location_id da).
               \<exists>ts al be.
                 read_cells (h ! da_data da) (map (\<lambda>y. [y, s, a, l]) (da_year_id da)) = Inr ts \<and>
                 get_lr_params ts = Inr (al, be) \<and>
                 (h' ! ds_alpha ds) [s, a, l] = Some al \<and>
                 (h' ! ds_beta ds) [s, a, l] = Some be))"
proof (intro conjI impI allI)
  assume "da_year_id da \<noteq> []"
  from get_all_lr_params_total [OF wf this]
  show "\<exists>ds h'. get_all_lr_params da h = Inr (ds, h')" by blast
next
  fix ds h'
  assume r: "get_all_lr_params da h = Inr (ds, h')"
  then have ne: "da_year_id da \<noteq> []"
    by (auto simp: get_all_lr_params_def split: if_splits)
  note fr = get_all_lr_params_frame [OF r]
  from get_all_lr_params_total [OF wf ne] r
  have tot: "dom (h' ! ds_alpha ds) = set (keys3 (da_sex_id da) (da_age_group_id da) (da_location_id da)) \<and>
           dom (h' ! ds_beta ds) = set (keys3 (da_sex_id da) (da_age_group_id da) (da_location_id da)) \<and>
           (\<forall>s\<in>set (da_sex_id da). \<forall>a\<in>set (da_age_group_id da). \<forall>l\<in>set (da_location_id da).
              \<exists>ts al be.
                read_cells (h ! da_data da) (map (\<lambda>y. [y, s, a, l]) (da_year_id da)) = Inr ts \<and>
                get_lr_params ts = Inr (al, be) \<and>
                (h' ! ds_alpha ds) [s, a, l] = Some al \<and>
                (h' ! ds_beta ds) [s, a, l] = Some be)"
    by auto
  show "ds_sex_id ds = da_sex_id da" using fr by simp
  show "ds_age_group_id ds = da_age_group_id da" using fr by simp
  show "ds_location_id ds = da_location_id da" using fr by simp
  show "dom (h' ! ds_alpha ds) = set (keys3 (da_sex_id da) (da_age_group_id da) (da_location_id da))"
    using tot by blast
  show "dom (h' ! ds_beta ds) = set (keys3 (da_sex_id da) (da_age_group_id da) (da_location_id da))"
    using tot by blast
  show "\<forall>s\<in>set (da_sex_id da). \<forall>a\<in>set (da_age_group_id da). \<forall>l\<in>set (da_location_id da).
          \<exists>ts al be.
            read_cells (h ! da_data da) (map (\<lambda>y. [y, s, a, l]) (da_year_id da)) = Inr ts \<and>
            get_lr_params ts = Inr (al, be) \<and>
            (h' ! ds_alpha ds) [s, a, l] = Some al \<and>
            (h' ! ds_beta ds) [s, a, l] = Some be"
    using tot by blast
qed

theorem get_all_lr_params_cartesian_product_witness:
  "wf_da example_da example_heap \<and> da_year_id example_da \<noteq> [] \<and>
   (\<exists>ds h' al be.
      get_all_lr_params example_da example_heap = Inr (ds, h') \<and>
      ds_sex_id ds = [1, 2] \<and> ds_age_group_id ds = [10] \<and> ds_location_id ds = [6] \<and>
      dom (h' ! ds_alpha ds) = {[1, 10, 6], [2, 10, 6]} \<and>
      dom (h' ! ds_beta ds) = {[1, 10, 6], [2, 10, 6]} \<and>
      get_lr_params [Num 1, Num 2, Num 3] = Inr (al, be) \<and>
      (h' ! ds_alpha ds) [1, 10, 6] = Some al \<and>
      (h' ! ds_beta ds) [1, 10, 6] = Some be)"
proof -
  note c = get_all_lr_params_cartesian_product [OF wf_example]
  have ne: "da_year_id example_da \<noteq> []" by (simp add: example_da_def)
  from c ne obtain ds h' where r: "get_all_lr_params example_da example_heap = Inr (ds, h')"
    by blast
  from c r have
    cs: "ds_sex_id ds = da_sex_id example_da" "ds_age_group_id ds = da_age_group_id example_da"
        "ds_location_id ds = da_location_id example_da"
    and dA: "dom (h' ! ds_alpha ds) =
               set (keys3 (da_sex_id example_da) (da_age_group_id example_da) (da_location_id example_da))"
    and dB: "dom (h' ! ds_beta ds) =
               set (keys3 (da_sex_id example_da) (da_age_group_id example_da) (da_location_id example_da))"
    and cells: "\<forall>s\<in>set (da_sex_id example_da). \<forall>a\<in>set (da_age_group_id example_da).
                \<forall>l\<in>set (da_location_id example_da).
                  \<exists>ts al be.
                    read_cells (example_heap ! da_data example_da)
                      (map (\<lambda>y. [y, s, a, l]) (da_year_id example_da)) = Inr ts \<and>
                    get_lr_params ts = Inr (al, be) \<and>
                    (h' ! ds_alpha ds) [s, a, l] = Some al \<and>
                    (h' ! ds_beta ds) [s, a, l] = Some be"
    by blast+
  have "1 \<in> set (da_sex_id example_da)" "10 \<in> set (da_age_group_id example_da)"
    "6 \<in> set (da_location_id example_da)" by (simp_all add: example_da_def)
  with cells obtain ts al be where
    ts: "read_cells (example_heap ! da_data example_da)
           (map (\<lambda>y. [y, 1, 10, 6]) (da_year_id example_da)) = Inr ts"
    and fit: "get_lr_params ts = Inr (al, be)"
    and ca: "(h' ! ds_alpha ds) [1, 10, 6] = Some al"
    and cb: "(h' ! ds_beta ds) [1, 10, 6] = Some be"
    by blast
  have "ts = [Num 1, Num 2, Num 3]"
    using ts by (simp add: example_da_def example_heap_def)
  then have fit': "get_lr_params [Num 1, Num 2, Num 3] = Inr (al, be)" using fit by simp
  have k: "set (keys3 (da_sex_id example_da) (da_age_group_id example_da) (da_location_id example_da))
           = {[1, 10, 6], [2, 10, 6]}"
    by (simp add: keys3_def example_da_def)
  have "ds_sex_id ds = [1, 2]" "ds_age_group_id ds = [10]" "ds_location_id ds = [6]"
    using cs by (simp_all add: example_da_def)
  then show ?thesis using wf_example ne r dA dB k fit' ca cb by auto
qed

text \<open>
  C5. Neither the grid fitter nor the forecaster changes a buffer of the store it is
  called in, so the input array is after the call what it was before, whether the call
  returns or raises; the buffers of the collection and of the array that are returned
  are new ones, allocated by the call.
\<close>

theorem fitter_and_forecaster_leave_input_unchanged:
  "(\<forall>ds h'. get_all_lr_params da h = Inr (ds, h') \<longrightarrow>
      (\<forall>a<length h. h' ! a = h ! a) \<and>
      length h \<le> ds_alpha ds \<and> ds_alpha ds < length h' \<and>
      length h \<le> ds_beta ds \<and> ds_beta ds < length h' \<and> ds_alpha ds \<noteq> ds_beta ds) \<and>
   (\<forall>e h'. get_all_lr_params da h = Inl (e, h') \<longrightarrow> (\<forall>a<length h. h' ! a = h ! a)) \<and>
   (\<forall>pred h'. get_decayed_drift_preds da yrs decay h = Inr (pred, h') \<longrightarrow>
      (\<forall>a<length h. h' ! a = h ! a) \<and>
      length h \<le> da_data pred \<and> da_data pred < length h') \<and>
   (\<forall>e h'. get_decayed_drift_preds da yrs decay h = Inl (e, h') \<longrightarrow>
      (\<forall>a<length h. h' ! a = h ! a))"
proof -
  have fit: "(\<forall>a<length h. h' ! a = h ! a) \<and>
      length h \<le> ds_alpha ds \<and> ds_alpha ds < length h' \<and>
      length h \<le> ds_beta ds \<and> ds_beta ds < length h' \<and> ds_alpha ds \<noteq> ds_beta ds"
    if "get_all_lr_params da h = Inr (ds, h')" for ds h'
    using get_all_lr_params_frame [OF that] by simp
  have fit_e: "\<forall>a<length h. h' ! a = h ! a"
    if "get_all_lr_params da h = Inl (e, h')" for e h'
    using get_all_lr_params_frame_err [OF that] by simp
  have fore: "(\<forall>a<length h. h' ! a = h ! a) \<and>
      length h \<le> da_data pred \<and> da_data pred < length h'"
    if "get_decayed_drift_preds da yrs decay h = Inr (pred, h')" for pred h'
    using get_decayed_drift_preds_frame [OF that] by simp
  have fore_e: "\<forall>a<length h. h' ! a = h ! a"
    if "get_decayed_drift_preds da yrs decay h = Inl (e, h')" for e h'
    using get_decayed_drift_preds_frame_err [OF that] by simp
  show ?thesis using fit fit_e fore fore_e by blast
qed

theorem fitter_and_forecaster_leave_input_unchanged_witness:
  "(\<exists>ds h'. get_all_lr_params example_da example_heap = Inr (ds, h') \<and>
      h' ! da_data example_da = example_heap ! da_data example_da \<and>
      1 \<le> ds_alpha ds \<and> 1 \<le> ds_beta ds) \<and>
   (\<exists>pred h'. get_decayed_drift_preds example_da example_years (Num (ln 2)) example_heap
                 = Inr (pred, h') \<and>
      h' ! da_data example_da = example_heap ! da_data example_da \<and>
      1 \<le> da_data pred)"
proof -
  note c = fitter_and_forecaster_leave_input_unchanged
             [of example_da example_heap example_years "Num (ln 2)"]
  have ne: "da_year_id example_da \<noteq> []" by (simp add: example_da_def)
  have py: "past_years example_years \<noteq> [] \<or>
            keys3 (da_sex_id example_da) (da_age_group_id example_da) (da_location_id example_da) = []"
    by (simp add: example_years_def)
  have a0: "da_data example_da < length example_heap" "length example_heap = 1"
    by (simp_all add: example_da_def example_heap_def)
  from get_all_lr_params_total [OF wf_example ne] obtain ds h1 where
    r1: "get_all_lr_params example_da example_heap = Inr (ds, h1)" by blast
  from get_decayed_drift_preds_total [OF wf_example ne py, of "Num (ln 2)"] obtain pred h2 where
    r2: "get_decayed_drift_preds example_da example_years (Num (ln 2)) example_heap = Inr (pred, h2)"
    by blast
  from c r1 have f1: "\<forall>a<length example_heap. h1 ! a = example_heap ! a"
    and "length example_heap \<le> ds_alpha ds" "length example_heap \<le> ds_beta ds"
    by blast+
  moreover from c r2 have f2: "\<forall>a<length example_heap. h2 ! a = example_heap ! a"
    and "length example_heap \<le> da_data pred"
    by blast+
  ultimately show ?thesis using r1 r2 a0 by auto
qed

text \<open>
  C7, as stated, fails on an array that has no sex label and no year either: the
  minimum of the empty year coordinate raises ValueError, in the grid fitter and so in
  the forecaster.
\<close>

theorem empty_grid_without_year_counterexample:
  "wf_da empty_da empty_heap \<and> da_sex_id empty_da = [] \<and>
   get_all_lr_params empty_da empty_heap = Inl (ValueError, empty_heap) \<and>
   get_decayed_drift_preds empty_da example_years (Num 0) empty_heap
     = Inl (ValueError, empty_heap)"
  using wf_empty
  by (simp add: empty_da_def get_all_lr_params_def get_decayed_drift_preds_def)

text \<open>
  C7, amended. On a well-formed input array with at least one year and no label on one
  of the axes sex, age group or location, the grid fitter returns a collection whose
  buffers are empty and the forecaster returns an array whose buffer is empty, for
  every year range and decay rate; neither raises.
\<close>

theorem empty_grid_gives_empty_results:
  assumes wf: "wf_da da h" and ne: "da_year_id da \<noteq> []"
    and emp: "da_sex_id da = [] \<or> da_age_group_id da = [] \<or> da_location_id da = []"
  shows "(\<exists>ds h'. get_all_lr_params da h = Inr (ds, h') \<and>
            h' ! ds_alpha ds = Map.empty \<and> h' ! ds_beta ds = Map.empty) \<and>
         (\<exists>pred h'. get_decayed_drift_preds da yrs decay h = Inr (pred, h') \<and>
            h' ! da_data pred = Map.empty)"
proof -
  have K: "set (keys3 (da_sex_id da) (da_age_group_id da) (da_location_id da)) = {}"
    using emp by (auto simp: set_keys3)
  then have k3: "keys3 (da_sex_id da) (da_age_group_id da) (da_location_id da) = []" by simp
  from get_all_lr_params_total [OF wf ne] obtain ds h1 where
    r1: "get_all_lr_params da h = Inr (ds, h1)"
    and "dom (h1 ! ds_alpha ds) = {}" "dom (h1 ! ds_beta ds) = {}"
    unfolding K by blast
  then have g: "\<exists>ds h'. get_all_lr_params da h = Inr (ds, h') \<and>
            h' ! ds_alpha ds = Map.empty \<and> h' ! ds_beta ds = Map.empty"
    by auto
  from get_decayed_drift_preds_total [OF wf ne, of yrs decay] k3 obtain pred h2 where
    r2: "get_decayed_drift_preds da yrs decay h = Inr (pred, h2)"
    and d: "dom (h2 ! da_data pred) = set (keys4 pred)"
    by blast
  note fr = get_decayed_drift_preds_frame [OF r2]
  have "set (keys4 pred) = {}" using fr K by (simp add: set_keys4)
  with d have "h2 ! da_data pred = Map.empty" by simp
  with r2 g show ?thesis by blast
qed

theorem empty_grid_gives_empty_results_witness:
  "wf_da no_sex_da empty_heap \<and> da_year_id no_sex_da \<noteq> [] \<and>
   (da_sex_id no_sex_da = [] \<or> da_age_group_id no_sex_da = [] \<or> da_location_id no_sex_da = []) \<and>
   (\<exists>ds h'. get_all_lr_params no_sex_da empty_heap = Inr (ds, h') \<and>
      h' ! ds_alpha ds = Map.empty \<and> h' ! ds_beta ds = Map.empty) \<and>
   (\<exists>pred h'. get_decayed_drift_preds no_sex_da example_years (Num (ln 2)) empty_heap
                 = Inr (pred, h') \<and>
      h' ! da_data pred = Map.empty)"
proof -
  have ne: "da_year_id no_sex_da \<noteq> []" by (simp add: no_sex_da_def)
  have emp: "da_sex_id no_sex_da = [] \<or> da_age_group_id no_sex_da = [] \<or>
             da_location_id no_sex_da = []" by (simp add: no_sex_da_def)
  from empty_grid_gives_empty_results [OF wf_no_sex ne emp, of example_years "Num (ln 2)"]
  show ?thesis using wf_no_sex ne emp by blast
qed

end
